theory Spec2Isabelle
  imports Main "HOL-Library.Monad_Syntax"
begin

section \<open>Data model\<close>

text \<open>
  The task and debug configurations are JSON objects read from \<^verbatim>\<open>tasks.json\<close> and
  \<^verbatim>\<open>launch.json\<close>. An optional field (\<^verbatim>\<open>f?: T\<close>) is a \<open>T option\<close>, with \<open>None\<close> for
  \<^verbatim>\<open>undefined\<close>. A string is a list of bytes (UTF-8); the only character tests of the
  program are on ASCII letters and digits.
\<close>

text \<open>JavaScript truthiness of an optional string: \<^verbatim>\<open>undefined\<close> and \<^verbatim>\<open>''\<close> are falsy.\<close>

definition truthy :: "string option \<Rightarrow> bool" where
  "truthy s = (case s of None \<Rightarrow> False | Some v \<Rightarrow> v \<noteq> [])"

text \<open>JavaScript truthiness of an optional boolean.\<close>

definition truthyBool :: "bool option \<Rightarrow> bool" where
  "truthyBool b = (case b of None \<Rightarrow> False | Some v \<Rightarrow> v)"

text \<open>
  \<^verbatim>\<open>NetCoreTaskOptions\<close>, \<^verbatim>\<open>NodeTaskBuildOptions\<close>, \<^verbatim>\<open>NetCoreDebugOptions\<close> and
  \<^verbatim>\<open>NodeDebugOptions\<close> are declared in modules that are not verified here; the code below
  only tests whether such a bag is present. A bag is kept as its list of key/value pairs.
\<close>

type_synonym options_bag = "(string \<times> string) list"

text \<open>\<^verbatim>\<open>DockerBuildOptions\<close> (DockerBuildTaskProvider.ts). The field \<^verbatim>\<open>context\<close> is named
  \<open>buildContext\<close> here.\<close>

record DockerBuildOptions =
  args :: "(string \<times> string) list option"
  buildContext :: "string option"
  dockerfile :: "string option"
  labels :: "(string \<times> string) list option"
  tag :: "string option"
  target :: "string option"
  pull :: "bool option"

datatype protocol = Tcp | Udp

datatype permissions = Ro | Rw

record DockerContainerExtraHost =
  hostname :: string
  ip :: string

record DockerContainerPort =
  hostPort :: "nat option"
  containerPort :: nat
  protocol :: "protocol option"

record DockerContainerVolume =
  localPath :: string
  containerPath :: string
  permissions :: "permissions option"

text \<open>One token of a command line: \<^verbatim>\<open>ShellQuotedString\<close> of the editor API, a value and
  whether it is to be quoted.\<close>

record ShellQuotedString =
  "value" :: string
  quoted :: bool

text \<open>\<^verbatim>\<open>command?: string | ShellQuotedString[]\<close>.\<close>

datatype command = CommandString string | CommandTokens "ShellQuotedString list"

text \<open>\<^verbatim>\<open>DockerRunOptions\<close> (the run task provider).\<close>

record DockerRunOptions =
  command :: "command option"
  containerName :: "string option"
  entrypoint :: "string option"
  env :: "(string \<times> string) list option"
  envFiles :: "string list option"
  extraHosts :: "DockerContainerExtraHost list option"
  image :: "string option"
  runLabels :: "(string \<times> string) list option"
  network :: "string option"
  networkAlias :: "string option"
  os :: "string option"
  ports :: "DockerContainerPort list option"
  portsPublishAll :: "bool option"
  volumes :: "DockerContainerVolume list option"

text \<open>
  \<^verbatim>\<open>dependsOn\<close> of a task: an ordered list of labels, or a single reference to a task type
  (\<^verbatim>\<open>node.dependsOn.type\<close>).
\<close>

datatype depends_on = DependsOnLabels "string list" | DependsOnType string

text \<open>
  A task definition as stored in the workspace configuration: \<^verbatim>\<open>TaskDefinitionBase\<close>,
  \<^verbatim>\<open>DockerBuildTaskDefinition\<close> and \<^verbatim>\<open>DockerRunTaskDefinition\<close> are views of the same JSON
  object. \<^verbatim>\<open>preLaunchTask\<close> is the field the dependency resolver reads from any node, a
  debug configuration included.
\<close>

record TaskDefinitionBase =
  label :: "string option"
  type :: string
  dependsOn :: "depends_on option"
  preLaunchTask :: "string option"
  platform :: "string option"
  netCore :: "options_bag option"
  node :: "options_bag option"
  dockerBuild :: "DockerBuildOptions option"
  dockerRun :: "DockerRunOptions option"

type_synonym DockerBuildTaskDefinition = TaskDefinitionBase
type_synonym DockerRunTaskDefinition = TaskDefinitionBase

text \<open>\<^verbatim>\<open>DockerRunTaskContext\<close>: only \<^verbatim>\<open>buildDefinition\<close> is read by the code verified here.\<close>

record DockerRunTaskContext =
  runTaskResult :: "string option"
  buildDefinition :: "DockerBuildTaskDefinition option"

section \<open>Image names (TaskHelper.ts)\<close>

datatype image_tag = Dev | Latest

fun tagString :: "image_tag \<Rightarrow> string" where
  "tagString Dev = ''dev''"
| "tagString Latest = ''latest''"

text \<open>The character class \<^verbatim>\<open>[a-z0-9]\<close> under the flag \<^verbatim>\<open>i\<close>: ASCII letters of either case
  and digits.\<close>

definition isAlnum :: "char \<Rightarrow> bool" where
  "isAlnum c = (let n = (of_char c :: nat) in
     (97 \<le> n \<and> n \<le> 122) \<or> (65 \<le> n \<and> n \<le> 90) \<or> (48 \<le> n \<and> n \<le> 57))"

definition isLowerAlnum :: "char \<Rightarrow> bool" where
  "isLowerAlnum c = (let n = (of_char c :: nat) in
     (97 \<le> n \<and> n \<le> 122) \<or> (48 \<le> n \<and> n \<le> 57))"

text \<open>\<^verbatim>\<open>toLowerCase\<close>, on the bytes it is applied to here (ASCII): \<^verbatim>\<open>A-Z\<close> go to \<^verbatim>\<open>a-z\<close>.\<close>

definition toLowerChar :: "char \<Rightarrow> char" where
  "toLowerChar c = (let n = (of_char c :: nat) in
     if 65 \<le> n \<and> n \<le> 90 then char_of (n + 32) else c)"

definition toLowerCase :: "string \<Rightarrow> string" where
  "toLowerCase s = map toLowerChar s"

definition getValidImageName :: "string \<Rightarrow> string" where
  "getValidImageName nameHint =
     (let result = toLowerCase (filter isAlnum nameHint)
      in if length result = 0 then ''image'' else result)"

definition getValidImageNameWithTag :: "string \<Rightarrow> image_tag \<Rightarrow> string" where
  "getValidImageNameWithTag nameHint t = getValidImageName nameHint @ '':'' @ tagString t"

definition getDefaultImageName :: "string \<Rightarrow> image_tag option \<Rightarrow> string" where
  "getDefaultImageName nameHint t =
     (let t' = (case t of None \<Rightarrow> Latest | Some v \<Rightarrow> v)
      in getValidImageNameWithTag nameHint t')"

definition getDefaultContainerName :: "string \<Rightarrow> image_tag option \<Rightarrow> string" where
  "getDefaultContainerName nameHint t =
     (let t' = (case t of None \<Rightarrow> Dev | Some v \<Rightarrow> v)
      in getValidImageName nameHint @ ''-'' @ tagString t')"

text \<open>
  \<^verbatim>\<open>a && b && c\<close> over optional objects ending in an optional string: the string when
  every object on the way is present, and falsy otherwise.
\<close>

definition runImage :: "DockerRunTaskDefinition option \<Rightarrow> string option" where
  "runImage runOptions =
     (case runOptions of None \<Rightarrow> None
      | Some r \<Rightarrow> (case dockerRun r of None \<Rightarrow> None | Some o' \<Rightarrow> image o'))"

definition buildTag :: "DockerRunTaskContext option \<Rightarrow> string option" where
  "buildTag ctx =
     (case ctx of None \<Rightarrow> None
      | Some c \<Rightarrow> (case buildDefinition c of None \<Rightarrow> None
          | Some b \<Rightarrow> (case dockerBuild b of None \<Rightarrow> None | Some o' \<Rightarrow> tag o')))"

definition inferImageName ::
  "DockerRunTaskDefinition option \<Rightarrow> DockerRunTaskContext option \<Rightarrow> string \<Rightarrow> image_tag option \<Rightarrow> string" where
  "inferImageName runOptions ctx defaultNameHint defaultTag =
     (if truthy (runImage runOptions) then the (runImage runOptions)
      else if truthy (buildTag ctx) then the (buildTag ctx)
      else getDefaultImageName defaultNameHint defaultTag)"

section \<open>Platform classifier (DockerDebugConfigurationProvider)\<close>

datatype DebugPlatform = NetCore | Node | Unknown

text \<open>
  \<^verbatim>\<open>DockerDebugConfiguration\<close>. The fields \<^verbatim>\<open>type\<close>, \<^verbatim>\<open>preLaunchTask\<close>, \<^verbatim>\<open>platform\<close>,
  \<^verbatim>\<open>netCore\<close> and \<^verbatim>\<open>node\<close> carry the prefix \<open>dbg\<close>, which tells them from the fields of a
  task definition; \<^verbatim>\<open>_containerNameToKill\<close> is written \<open>containerNameToKill\<close>. The platform
  tag is whatever string the configuration file gives, or absent.
\<close>

record DockerDebugConfiguration =
  dbgType :: string
  dbgPreLaunchTask :: "string option"
  dbgPlatform :: "string option"
  dbgNetCore :: "options_bag option"
  dbgNode :: "options_bag option"
  removeContainerAfterDebug :: "bool option"
  containerNameToKill :: "string option"

definition determineDebugPlatform :: "DockerDebugConfiguration \<Rightarrow> DebugPlatform" where
  "determineDebugPlatform debugConfiguration =
     (if dbgPlatform debugConfiguration = Some ''netCore'' \<or> dbgNetCore debugConfiguration \<noteq> None
      then NetCore
      else if dbgPlatform debugConfiguration = Some ''node'' \<or> dbgNode debugConfiguration \<noteq> None
      then Node
      else Unknown)"

section \<open>Stored task list (TaskHelper.ts)\<close>

text \<open>The workspace configuration section \<^verbatim>\<open>tasks\<close>: its key \<^verbatim>\<open>tasks\<close> may be absent.\<close>

record WorkspaceConfiguration =
  tasks :: "TaskDefinitionBase list option"

text \<open>\<^verbatim>\<open>Array.prototype.findIndex\<close>: the first index whose element satisfies the predicate,
  \<open>-1\<close> when there is none.\<close>

fun findIndexFrom :: "int \<Rightarrow> ('a \<Rightarrow> bool) \<Rightarrow> 'a list \<Rightarrow> int" where
  "findIndexFrom i p [] = -1"
| "findIndexFrom i p (x # xs) = (if p x then i else findIndexFrom (i + 1) p xs)"

definition findIndex :: "('a \<Rightarrow> bool) \<Rightarrow> 'a list \<Rightarrow> int" where
  "findIndex p xs = findIndexFrom 0 p xs"

text \<open>\<^verbatim>\<open>workspaceTasks && workspaceTasks.tasks || []\<close>: the stored list, empty when the key
  is absent.\<close>

definition storedTasks :: "WorkspaceConfiguration \<Rightarrow> TaskDefinitionBase list" where
  "storedTasks workspaceTasks = (case tasks workspaceTasks of None \<Rightarrow> [] | Some ts \<Rightarrow> ts)"

text \<open>\<^verbatim>\<open>workspaceTasks.update('tasks', allTasks)\<close>.\<close>

definition updateTasks :: "WorkspaceConfiguration \<Rightarrow> TaskDefinitionBase list \<Rightarrow> WorkspaceConfiguration" where
  "updateTasks workspaceTasks allTasks = workspaceTasks\<lparr>tasks := Some allTasks\<rparr>"

text \<open>\<^verbatim>\<open>addTask\<close>: the returned boolean and the configuration after the call.\<close>

definition addTask ::
  "TaskDefinitionBase \<Rightarrow> bool option \<Rightarrow> WorkspaceConfiguration \<Rightarrow> bool \<times> WorkspaceConfiguration" where
  "addTask newTask overwrite workspaceTasks =
     (let allTasks = storedTasks workspaceTasks;
          existingTaskIndex = findIndex (\<lambda>t. label t = label newTask) allTasks
      in if existingTaskIndex \<ge> 0 then
           (if truthyBool overwrite
            then (True, updateTasks workspaceTasks (allTasks[nat existingTaskIndex := newTask]))
            else (False, workspaceTasks))
         else (True, updateTasks workspaceTasks (allTasks @ [newTask])))"

section \<open>Task dependency resolver (TaskHelper.ts)\<close>

definition findTaskByLabel :: "TaskDefinitionBase list \<Rightarrow> string \<Rightarrow> TaskDefinitionBase option" where
  "findTaskByLabel allTasks l = find (\<lambda>t. label t = Some l) allTasks"

definition findTaskByType :: "TaskDefinitionBase list \<Rightarrow> string \<Rightarrow> TaskDefinitionBase option" where
  "findTaskByType allTasks ty = find (\<lambda>t. type t = ty) allTasks"

text \<open>
  The loop \<^verbatim>\<open>for (const label of node.dependsOn) { ... if (next) return next; }\<close> followed by
  \<^verbatim>\<open>return undefined\<close>. The body is the recursive call on the task of the label; a result is
  \<open>None\<close> when the call does not return, \<open>Some None\<close> when it returns \<^verbatim>\<open>undefined\<close>, and
  \<open>Some (Some t)\<close> when it returns the task \<open>t\<close>.
\<close>

primrec forLabels ::
  "(string \<Rightarrow> TaskDefinitionBase option option) \<Rightarrow> string list \<Rightarrow> TaskDefinitionBase option option" where
  "forLabels body [] = Some None"
| "forLabels body (l # ls) =
     (case body l of
        None \<Rightarrow> None
      | Some nxt \<Rightarrow> (case nxt of Some r \<Rightarrow> Some (Some r) | None \<Rightarrow> forLabels body ls))"

lemma forLabels_mono [partial_function_mono]:
  assumes "\<And>l. mono_option (\<lambda>f. B f l)"
  shows "mono_option (\<lambda>f. forLabels (B f) ls)"
proof (induction ls)
  case Nil
  show ?case by (simp add: option.const_mono)
next
  case (Cons l ls)
  have "mono_option (\<lambda>f. Option.bind (B f l)
          (\<lambda>nxt. case nxt of Some r \<Rightarrow> Some (Some r) | None \<Rightarrow> forLabels (B f) ls))"
  proof (rule bind_mono [OF assms])
    fix nxt :: "TaskDefinitionBase option"
    show "mono_option (\<lambda>f. case nxt of Some r \<Rightarrow> Some (Some r) | None \<Rightarrow> forLabels (B f) ls)"
      by (cases nxt) (simp_all add: option.const_mono Cons)
  qed
  moreover have "\<And>f. forLabels (B f) (l # ls) = Option.bind (B f l)
          (\<lambda>nxt. case nxt of Some r \<Rightarrow> Some (Some r) | None \<Rightarrow> forLabels (B f) ls)"
    by (simp split: option.splits)
  ultimately show ?case by simp
qed

text \<open>
  \<^verbatim>\<open>recursiveFindTaskByType\<close>, with the parameters \<^verbatim>\<open>type\<close> and \<^verbatim>\<open>node\<close> of the source named
  \<open>ty\<close> and \<open>nd\<close>. The recursion is the source's own and has no bound, so the function
  is partial: \<open>None\<close> is a call that never returns.
\<close>

partial_function (option) recursiveFindTaskByType ::
  "TaskDefinitionBase list \<Rightarrow> string \<Rightarrow> TaskDefinitionBase option \<Rightarrow> TaskDefinitionBase option option" where
  "recursiveFindTaskByType allTasks ty nd =
     (case nd of
        None \<Rightarrow> Some None
      | Some n \<Rightarrow>
          if truthy (preLaunchTask n) then
            recursiveFindTaskByType allTasks ty (findTaskByLabel allTasks (the (preLaunchTask n)))
          else if type n = ty then Some (Some n)
          else (case dependsOn n of
                  None \<Rightarrow> Some None
                | Some (DependsOnLabels ls) \<Rightarrow>
                    forLabels (\<lambda>l. recursiveFindTaskByType allTasks ty (findTaskByLabel allTasks l)) ls
                | Some (DependsOnType nextType) \<Rightarrow>
                    recursiveFindTaskByType allTasks ty (findTaskByType allTasks nextType)))"

text \<open>A debug configuration as a start node of the resolver: the fields the resolver reads.\<close>

definition debugNode :: "DockerDebugConfiguration \<Rightarrow> TaskDefinitionBase" where
  "debugNode c = \<lparr>label = None, type = dbgType c, dependsOn = None,
     preLaunchTask = dbgPreLaunchTask c, platform = dbgPlatform c, netCore = dbgNetCore c,
     node = dbgNode c, dockerBuild = None, dockerRun = None\<rparr>"

definition getAssociatedDockerRunTask ::
  "WorkspaceConfiguration \<Rightarrow> DockerDebugConfiguration \<Rightarrow> TaskDefinitionBase option option" where
  "getAssociatedDockerRunTask workspaceTasks debugConfiguration =
     (let allTasks = storedTasks workspaceTasks
      in recursiveFindTaskByType allTasks ''docker-run'' (Some (debugNode debugConfiguration)))"

text \<open>\<^verbatim>\<open>getAssociatedDockerBuildTask\<close> reads only \<^verbatim>\<open>runTask.name\<close> of its argument.\<close>

definition getAssociatedDockerBuildTask ::
  "WorkspaceConfiguration \<Rightarrow> string \<Rightarrow> TaskDefinitionBase option option" where
  "getAssociatedDockerBuildTask workspaceTasks runTaskName =
     (let allTasks = storedTasks workspaceTasks;
          runTaskDefinition = findTaskByLabel allTasks runTaskName
      in recursiveFindTaskByType allTasks ''docker-build'' runTaskDefinition)"

text \<open>
  The nodes a call of \<open>recursiveFindTaskByType\<close> on \<open>n\<close> may call itself on: the reference
  graph of the task set, as the resolver reads it. A reference that resolves to no task
  contributes no node.
\<close>

fun resolved :: "'a option \<Rightarrow> 'a list" where
  "resolved None = []"
| "resolved (Some m) = [m]"

definition followedNodes ::
  "TaskDefinitionBase list \<Rightarrow> string \<Rightarrow> TaskDefinitionBase \<Rightarrow> TaskDefinitionBase list" where
  "followedNodes allTasks ty n =
     (if truthy (preLaunchTask n) then resolved (findTaskByLabel allTasks (the (preLaunchTask n)))
      else if type n = ty then []
      else (case dependsOn n of
              None \<Rightarrow> []
            | Some (DependsOnLabels ls) \<Rightarrow> concat (map (\<lambda>l. resolved (findTaskByLabel allTasks l)) ls)
            | Some (DependsOnType nextType) \<Rightarrow> resolved (findTaskByType allTasks nextType)))"

text \<open>A task with the given label, type and \<^verbatim>\<open>dependsOn\<close>, every other field absent.\<close>

definition mkTask :: "string \<Rightarrow> string \<Rightarrow> depends_on option \<Rightarrow> TaskDefinitionBase" where
  "mkTask l ty d = \<lparr>label = Some l, type = ty, dependsOn = d, preLaunchTask = None,
     platform = None, netCore = None, node = None, dockerBuild = None, dockerRun = None\<rparr>"

section \<open>Debug session lifecycle (DockerDebugConfigurationProvider)\<close>

text \<open>The error the debug configuration provider throws, and a rejection passed on from a
  platform helper.\<close>

datatype error =
  UnrecognizedPlatform "string option"
| HelperFailure string

text \<open>A debug session, as far as the termination listener reads it.\<close>

record DebugSession =
  configuration :: DockerDebugConfiguration

text \<open>
  A listener registered with \<^verbatim>\<open>debug.onDidTerminateDebugSession\<close>: the closure holds the
  resolved configuration (\<open>watching\<close>) and its own disposable, which is the identity \<open>lid\<close>
  of the registration.
\<close>

record listener =
  lid :: nat
  watching :: DockerDebugConfiguration

text \<open>
  The editor host and the Docker client: the registered termination listeners in the
  order of their registration, the next registration identity, the calls of
  \<^verbatim>\<open>dockerClient.removeContainer\<close> made so far (container name and the \<^verbatim>\<open>force\<close> option), and
  the callback invocations that are suspended at \<^verbatim>\<open>await removeContainer\<close>, each by the
  identity of its listener.
\<close>

record DebugHost =
  listeners :: "listener list"
  nextId :: nat
  removeCalls :: "(string \<times> bool) list"
  pendingRemovals :: "nat list"

text \<open>\<^verbatim>\<open>disposable.dispose()\<close>: the registration is taken out.\<close>

definition dispose :: "nat \<Rightarrow> DebugHost \<Rightarrow> DebugHost" where
  "dispose i h = h\<lparr>listeners := filter (\<lambda>l. lid l \<noteq> i) (listeners h)\<rparr>"

text \<open>\<^verbatim>\<open>debug.onDidTerminateDebugSession(callback)\<close>, for the callback that watches the
  given configuration.\<close>

definition onDidTerminateDebugSession :: "DockerDebugConfiguration \<Rightarrow> DebugHost \<Rightarrow> DebugHost" where
  "onDidTerminateDebugSession debugConfiguration h =
     h\<lparr>listeners := listeners h @ [\<lparr>lid = nextId h, watching = debugConfiguration\<rparr>],
       nextId := nextId h + 1\<rparr>"

text \<open>
  The callback of the listener, run on a terminated session, up to its \<^verbatim>\<open>await\<close>: when the
  test passes, \<^verbatim>\<open>removeContainer\<close> is called with \<^verbatim>\<open>force\<close> and the invocation is suspended
  until the removal settles; the listener is still registered. Otherwise the callback
  returns without disposing.
\<close>

definition listenerCallback :: "listener \<Rightarrow> DebugSession \<Rightarrow> DebugHost \<Rightarrow> DebugHost" where
  "listenerCallback l session h =
     (if truthyBool (removeContainerAfterDebug (configuration session))
         \<and> truthy (containerNameToKill (configuration session))
         \<and> containerNameToKill (configuration session) = containerNameToKill (watching l)
      then
        (let name = the (containerNameToKill (watching l))
         in h\<lparr>removeCalls := removeCalls h @ [(name, True)],
              pendingRemovals := pendingRemovals h @ [lid l]\<rparr>)
      else h)"

text \<open>
  The rest of a suspended invocation of the listener \<open>i\<close>, run when its removal settles:
  \<^verbatim>\<open>disposable.dispose()\<close> after the \<^verbatim>\<open>await\<close> when the removal succeeded, and
  \<^verbatim>\<open>disposable.dispose()\<close> in the \<^verbatim>\<open>catch\<close> block when it failed. Without a suspended
  invocation of \<open>i\<close> there is nothing to run.
\<close>

definition removalSettled :: "bool \<Rightarrow> nat \<Rightarrow> DebugHost \<Rightarrow> DebugHost" where
  "removalSettled succeeded i h =
     (if i \<in> set (pendingRemovals h)
      then (let h' = h\<lparr>pendingRemovals := remove1 i (pendingRemovals h)\<rparr>
            in if succeeded then dispose i h' else dispose i h')
      else h)"

text \<open>A session ends: the host calls every registered listener.\<close>

definition terminateSession :: "DebugSession \<Rightarrow> DebugHost \<Rightarrow> DebugHost" where
  "terminateSession session h = fold (\<lambda>l. listenerCallback l session) (listeners h) h"

text \<open>
  \<^verbatim>\<open>registerRemoveContainerAfterDebugging\<close>. The source assigns to a field of the object it
  is given, which the caller then returns: the configuration after the call is part of the
  result here.
\<close>

definition registerRemoveContainerAfterDebugging ::
  "DockerDebugConfiguration option \<Rightarrow> DebugHost \<Rightarrow> DockerDebugConfiguration option \<times> DebugHost" where
  "registerRemoveContainerAfterDebugging debugConfiguration h =
     (case debugConfiguration of
        None \<Rightarrow> (None, h)
      | Some c \<Rightarrow>
          if (removeContainerAfterDebug c = None \<or> truthyBool (removeContainerAfterDebug c))
             \<and> truthy (containerNameToKill c)
          then (let c' = c\<lparr>removeContainerAfterDebug := Some True\<rparr>
                in (Some c', onDidTerminateDebugSession c' h))
          else (Some c, h))"

text \<open>
  \<^verbatim>\<open>netCoreDebugHelper.resolveDebugConfiguration\<close> and its \<^verbatim>\<open>node\<close> counterpart belong to
  modules that are not verified here: they are parameters, from the workspace folder and the configuration to a
  rejection, \<^verbatim>\<open>undefined\<close> (debugging was cancelled) or the resolved configuration.
\<close>

type_synonym debug_helper =
  "string option \<Rightarrow> DockerDebugConfiguration \<Rightarrow> error + DockerDebugConfiguration option"

definition resolveDebugConfigurationInternal ::
  "debug_helper \<Rightarrow> debug_helper \<Rightarrow> string option \<Rightarrow> DockerDebugConfiguration \<Rightarrow> DebugPlatform
   \<Rightarrow> DebugHost \<Rightarrow> error + (DockerDebugConfiguration option \<times> DebugHost)" where
  "resolveDebugConfigurationInternal netCoreDebugHelper nodeDebugHelper folder debugConfiguration
     debugPlatform h =
     (case (case debugPlatform of
              NetCore \<Rightarrow> netCoreDebugHelper folder debugConfiguration
            | Node \<Rightarrow> nodeDebugHelper folder debugConfiguration
            | Unknown \<Rightarrow> Inl (UnrecognizedPlatform (dbgPlatform debugConfiguration))) of
        Inl e \<Rightarrow> Inl e
      | Inr result \<Rightarrow> Inr (registerRemoveContainerAfterDebugging result h))"

text \<open>\<^verbatim>\<open>resolveDebugConfiguration\<close>, as far as the internal call goes: the telemetry wrapper of
  an external library, which handles what the internal call throws, is not part of the model.\<close>

definition resolveDebugConfiguration ::
  "debug_helper \<Rightarrow> debug_helper \<Rightarrow> string option \<Rightarrow> DockerDebugConfiguration
   \<Rightarrow> DebugHost \<Rightarrow> error + (DockerDebugConfiguration option \<times> DebugHost)" where
  "resolveDebugConfiguration netCoreDebugHelper nodeDebugHelper folder debugConfiguration h =
     (let debugPlatform = determineDebugPlatform debugConfiguration
      in resolveDebugConfigurationInternal netCoreDebugHelper nodeDebugHelper folder
           debugConfiguration debugPlatform h)"

text \<open>What the helper of the platform of a configuration returns for it.\<close>

definition helperResult ::
  "debug_helper \<Rightarrow> debug_helper \<Rightarrow> string option \<Rightarrow> DockerDebugConfiguration
   \<Rightarrow> error + DockerDebugConfiguration option" where
  "helperResult netCoreDebugHelper nodeDebugHelper folder debugConfiguration =
     (case determineDebugPlatform debugConfiguration of
        NetCore \<Rightarrow> netCoreDebugHelper folder debugConfiguration
      | Node \<Rightarrow> nodeDebugHelper folder debugConfiguration
      | Unknown \<Rightarrow> Inl (UnrecognizedPlatform (dbgPlatform debugConfiguration)))"

section \<open>Command lines (CommandLineBuilder and the run task provider)\<close>

text \<open>
  Modelled from the spec: the class \<^verbatim>\<open>CommandLineBuilder\<close> (\<^verbatim>\<open>utils/commandLineBuilder\<close>) is
  not part of the source verified here. The spec describes it as a builder of an ordered token
  sequence to which each call appends zero or more tokens, a token being quoted when it
  contains a shell metacharacter or whitespace. Which characters these are is a parameter
  (\<open>special\<close>). The builder is the list of the tokens appended so far.
\<close>

type_synonym CommandLineBuilder = "ShellQuotedString list"

definition token :: "(char \<Rightarrow> bool) \<Rightarrow> string \<Rightarrow> ShellQuotedString" where
  "token special v = \<lparr>value = v, quoted = list_ex special v\<rparr>"

text \<open>Modelled from the spec: \<^verbatim>\<open>create\<close>, the executable name and the fixed leading arguments.\<close>

definition create :: "(char \<Rightarrow> bool) \<Rightarrow> string list \<Rightarrow> CommandLineBuilder" where
  "create special as = map (token special) as"

text \<open>Modelled from the spec: \<^verbatim>\<open>withFlagArg(flag, present)\<close> emits \<^verbatim>\<open>flag\<close> iff \<^verbatim>\<open>present\<close> is
  true.\<close>

definition withFlagArg ::
  "(char \<Rightarrow> bool) \<Rightarrow> string \<Rightarrow> bool \<Rightarrow> CommandLineBuilder \<Rightarrow> CommandLineBuilder" where
  "withFlagArg special flag present b = (if present then b @ [token special flag] else b)"

text \<open>Modelled from the spec: \<^verbatim>\<open>withNamedArg(name, value)\<close> emits \<^verbatim>\<open>name value\<close> iff \<^verbatim>\<open>value\<close>
  is non-empty.\<close>

definition withNamedArg ::
  "(char \<Rightarrow> bool) \<Rightarrow> string \<Rightarrow> string option \<Rightarrow> CommandLineBuilder \<Rightarrow> CommandLineBuilder" where
  "withNamedArg special name v b =
     (if truthy v then b @ [token special name, token special (the v)] else b)"

text \<open>Modelled from the spec: \<^verbatim>\<open>withKeyValueArgs(flag, mapping)\<close> emits \<^verbatim>\<open>flag "k=v"\<close> once per
  entry, in insertion order.\<close>

definition withKeyValueArgs ::
  "(char \<Rightarrow> bool) \<Rightarrow> string \<Rightarrow> (string \<times> string) list option \<Rightarrow> CommandLineBuilder
   \<Rightarrow> CommandLineBuilder" where
  "withKeyValueArgs special flag mapping b =
     (case mapping of
        None \<Rightarrow> b
      | Some kvs \<Rightarrow>
          b @ concat (map (\<lambda>(k, v). [token special flag, token special (k @ ''='' @ v)]) kvs))"

text \<open>Modelled from the spec: \<^verbatim>\<open>withArrayArgs(flag, list, formatter)\<close> emits
  \<^verbatim>\<open>flag formatted(item)\<close> once per list entry, in list order.\<close>

definition withArrayArgs ::
  "(char \<Rightarrow> bool) \<Rightarrow> string \<Rightarrow> 'a list option \<Rightarrow> ('a \<Rightarrow> string) \<Rightarrow> CommandLineBuilder
   \<Rightarrow> CommandLineBuilder" where
  "withArrayArgs special flag xs formatter b =
     (case xs of
        None \<Rightarrow> b
      | Some items \<Rightarrow>
          b @ concat (map (\<lambda>x. [token special flag, token special (formatter x)]) items))"

text \<open>Modelled from the spec: \<^verbatim>\<open>withQuotedArg(value)\<close> emits \<^verbatim>\<open>value\<close> iff non-empty.\<close>

definition withQuotedArg ::
  "(char \<Rightarrow> bool) \<Rightarrow> string option \<Rightarrow> CommandLineBuilder \<Rightarrow> CommandLineBuilder" where
  "withQuotedArg special v b = (if truthy v then b @ [token special (the v)] else b)"

definition isSpace :: "char \<Rightarrow> bool" where
  "isSpace c = (c = CHR '' '' \<or> c = CHR 0x09 \<or> c = CHR 0x0A \<or> c = CHR 0x0D)"

fun splitWhitespace :: "string \<Rightarrow> string \<Rightarrow> string list" where
  "splitWhitespace cur [] = (if cur = [] then [] else [cur])"
| "splitWhitespace cur (c # cs) =
     (if isSpace c then (if cur = [] then [] else [cur]) @ splitWhitespace [] cs
      else splitWhitespace (cur @ [c]) cs)"

text \<open>Modelled from the spec: \<^verbatim>\<open>withArgs(value)\<close> takes a single string, split on whitespace
  into independent tokens, or a pre-tokenized list, appended as it is.\<close>

definition withArgs ::
  "(char \<Rightarrow> bool) \<Rightarrow> command option \<Rightarrow> CommandLineBuilder \<Rightarrow> CommandLineBuilder" where
  "withArgs special v b =
     (case v of
        None \<Rightarrow> b
      | Some (CommandString s) \<Rightarrow> b @ map (token special) (splitWhitespace [] s)
      | Some (CommandTokens ts) \<Rightarrow> b @ ts)"

text \<open>Modelled from the spec: the final \<^verbatim>\<open>build\<close> produces the token sequence.\<close>

definition buildShellQuotedStrings :: "CommandLineBuilder \<Rightarrow> ShellQuotedString list" where
  "buildShellQuotedStrings b = b"

text \<open>A number in a template string: its decimal digits.\<close>

definition digitChar :: "nat \<Rightarrow> char" where
  "digitChar d = ''0123456789'' ! d"

fun showNat :: "nat \<Rightarrow> string" where
  "showNat n = (if n < 10 then [digitChar n]
                else showNat (n div 10) @ [digitChar (n mod 10)])"

fun permissionsString :: "permissions \<Rightarrow> string" where
  "permissionsString Ro = ''ro''"
| "permissionsString Rw = ''rw''"

fun protocolString :: "protocol \<Rightarrow> string" where
  "protocolString Tcp = ''tcp''"
| "protocolString Udp = ''udp''"

text \<open>The three formatters of \<^verbatim>\<open>resolveCommandLine\<close> of the run task provider. A host port
  of \<open>0\<close> is falsy.\<close>

definition formatVolume :: "DockerContainerVolume \<Rightarrow> string" where
  "formatVolume volume =
     localPath volume @ '':'' @ containerPath volume @
     (case permissions volume of Some p \<Rightarrow> '':'' @ permissionsString p | None \<Rightarrow> [])"

definition formatPort :: "DockerContainerPort \<Rightarrow> string" where
  "formatPort port =
     (case hostPort port of
        Some hp \<Rightarrow> (if hp \<noteq> 0 then showNat hp @ '':'' else [])
      | None \<Rightarrow> []) @
     showNat (containerPort port) @
     (case protocol port of Some p \<Rightarrow> ''/'' @ protocolString p | None \<Rightarrow> [])"

definition formatExtraHost :: "DockerContainerExtraHost \<Rightarrow> string" where
  "formatExtraHost extraHost = hostname extraHost @ '':'' @ ip extraHost"

text \<open>The argument of \<^verbatim>\<open>withFlagArg('-P', ...)\<close> in \<^verbatim>\<open>resolveCommandLine\<close>.\<close>

definition publishAllPorts :: "DockerRunOptions \<Rightarrow> bool" where
  "publishAllPorts runOptions =
     (truthyBool (portsPublishAll runOptions)
      \<or> (portsPublishAll runOptions = None
          \<and> (case ports runOptions of None \<Rightarrow> True | Some ps \<Rightarrow> length ps < 1)))"

text \<open>\<^verbatim>\<open>DockerRunTaskProvider.resolveCommandLine\<close>.\<close>

definition resolveCommandLine :: "(char \<Rightarrow> bool) \<Rightarrow> DockerRunOptions \<Rightarrow> ShellQuotedString list" where
  "resolveCommandLine special runOptions =
     (let b = create special [''docker'', ''run'', ''-dt''];
          b = withFlagArg special ''-P'' (publishAllPorts runOptions) b;
          b = withNamedArg special ''--name'' (containerName runOptions) b;
          b = withNamedArg special ''--network'' (network runOptions) b;
          b = withNamedArg special ''--network-alias'' (networkAlias runOptions) b;
          b = withKeyValueArgs special ''-e'' (env runOptions) b;
          b = withArrayArgs special ''--env-file'' (envFiles runOptions) (\<lambda>f. f) b;
          b = withKeyValueArgs special ''--label'' (runLabels runOptions) b;
          b = withArrayArgs special ''-v'' (volumes runOptions) formatVolume b;
          b = withArrayArgs special ''-p'' (ports runOptions) formatPort b;
          b = withArrayArgs special ''--add-host'' (extraHosts runOptions) formatExtraHost b;
          b = withNamedArg special ''--entrypoint'' (entrypoint runOptions) b;
          b = withQuotedArg special (image runOptions) b;
          b = withArgs special (command runOptions) b
      in buildShellQuotedStrings b)"

text \<open>\<^verbatim>\<open>DockerBuildTaskProvider.resolveCommandLine\<close>.\<close>

definition resolveBuildCommandLine :: "(char \<Rightarrow> bool) \<Rightarrow> DockerBuildOptions \<Rightarrow> ShellQuotedString list" where
  "resolveBuildCommandLine special options =
     (let b = create special [''docker'', ''build'', ''--rm''];
          b = withFlagArg special ''--pull'' (truthyBool (pull options)) b;
          b = withNamedArg special ''-f'' (dockerfile options) b;
          b = withKeyValueArgs special ''--build-arg'' (args options) b;
          b = withKeyValueArgs special ''--label'' (labels options) b;
          b = withNamedArg special ''-t'' (tag options) b;
          b = withNamedArg special ''--target'' (target options) b;
          b = withQuotedArg special (buildContext options) b
      in buildShellQuotedStrings b)"

section \<open>Task resolution on a store of objects (the task providers)\<close>

text \<open>
  \<open>resolveTaskInternal\<close> assigns to fields of objects that the caller may still hold, so the
  objects live in a store: an object is its list of properties in insertion order, a
  value is a primitive or a reference to an object, and the store is the list of the
  objects allocated so far, the address of an object being its index. An array is the
  object of its indices.
\<close>

type_synonym addr = nat

datatype prim = PUndefined | PNull | PBool bool | PNumber int | PString string

datatype jsval = Prim prim | Ref addr

type_synonym jsobject = "(string \<times> jsval) list"

type_synonym store = "jsobject list"

text \<open>JavaScript truthiness of a value.\<close>

fun truthyVal :: "jsval \<Rightarrow> bool" where
  "truthyVal (Prim PUndefined) = False"
| "truthyVal (Prim PNull) = False"
| "truthyVal (Prim (PBool b)) = b"
| "truthyVal (Prim (PNumber n)) = (n \<noteq> 0)"
| "truthyVal (Prim (PString s)) = (s \<noteq> [])"
| "truthyVal (Ref a) = True"

text \<open>\<^verbatim>\<open>v.f\<close>, for the values \<open>v\<close> the providers read fields of: \<^verbatim>\<open>undefined\<close> when the object
  has no such property.\<close>

definition getField :: "store \<Rightarrow> jsval \<Rightarrow> string \<Rightarrow> jsval" where
  "getField st v f =
     (case v of
        Ref a \<Rightarrow> (if a < length st
                  then (case map_of (st ! a) f of Some x \<Rightarrow> x | None \<Rightarrow> Prim PUndefined)
                  else Prim PUndefined)
      | Prim p \<Rightarrow> Prim PUndefined)"

text \<open>The properties of an object after \<^verbatim>\<open>o.f = v\<close>: an existing property keeps its place.\<close>

fun putProperty :: "string \<Rightarrow> jsval \<Rightarrow> jsobject \<Rightarrow> jsobject" where
  "putProperty f v [] = [(f, v)]"
| "putProperty f v ((k, w) # ps) = (if k = f then (f, v) # ps else (k, w) # putProperty f v ps)"

text \<open>\<^verbatim>\<open>o.f = v\<close> on the object a value refers to.\<close>

definition setField :: "store \<Rightarrow> jsval \<Rightarrow> string \<Rightarrow> jsval \<Rightarrow> store" where
  "setField st v f w =
     (case v of
        Ref a \<Rightarrow> (if a < length st then st[a := putProperty f w (st ! a)] else st)
      | Prim p \<Rightarrow> st)"

text \<open>\<^verbatim>\<open>{}\<close>: a new object without properties.\<close>

definition newObject :: "store \<Rightarrow> store \<times> jsval" where
  "newObject st = (st @ [[]], Ref (length st))"

text \<open>The value of an object graph: what \<^verbatim>\<open>cloneObject\<close> copies.\<close>

datatype tree = TLeaf prim | TObject "(string \<times> tree) list"

text \<open>
  The tree below a value, read from the store. The fuel bounds the depth; with the number
  of objects of the store as fuel the tree of every acyclic graph is found, and \<open>None\<close>
  stands for a graph with a cycle or a dangling reference, which no configuration file
  gives.
\<close>

fun snapshot :: "nat \<Rightarrow> store \<Rightarrow> jsval \<Rightarrow> tree option"
  and snapshotProperties :: "nat \<Rightarrow> store \<Rightarrow> jsobject \<Rightarrow> (string \<times> tree) list option" where
  "snapshot n st (Prim p) = Some (TLeaf p)"
| "snapshot 0 st (Ref a) = None"
| "snapshot (Suc n) st (Ref a) =
     (if a < length st then map_option TObject (snapshotProperties n st (st ! a)) else None)"
| "snapshotProperties n st [] = Some []"
| "snapshotProperties n st ((k, v) # ps) =
     (case snapshot n st v of
        None \<Rightarrow> None
      | Some t \<Rightarrow> (case snapshotProperties n st ps of
                     None \<Rightarrow> None
                   | Some ts \<Rightarrow> Some ((k, t) # ts)))"

text \<open>A tree built in the store from new objects only.\<close>

fun allocate :: "store \<Rightarrow> tree \<Rightarrow> store \<times> jsval"
  and allocateProperties :: "store \<Rightarrow> (string \<times> tree) list \<Rightarrow> store \<times> jsobject" where
  "allocate st (TLeaf p) = (st, Prim p)"
| "allocate st (TObject ts) =
     (let (st1, ps) = allocateProperties st ts in (st1 @ [ps], Ref (length st1)))"
| "allocateProperties st [] = (st, [])"
| "allocateProperties st ((k, t) # ts) =
     (let (st1, v) = allocate st t;
          (st2, ps) = allocateProperties st1 ts
      in (st2, (k, v) # ps))"

datatype task_error =
  CircularStructure
| UnrecognizedTaskPlatform jsval
| UnableToDetermineScope string
| HelperRejected string

text \<open>
  Modelled from the spec: \<^verbatim>\<open>cloneObject\<close> (\<^verbatim>\<open>utils/cloneObject\<close>) is not part of the source
  verified here. The spec has resolution always clone its input before merging, never mutate the
  object of the caller, and likens the discipline to value semantics: the clone is a
  copy of the whole object graph in new objects.
\<close>

definition cloneObject :: "store \<Rightarrow> jsval \<Rightarrow> task_error + (store \<times> jsval)" where
  "cloneObject st v =
     (case snapshot (length st) st v of
        None \<Rightarrow> Inl CircularStructure
      | Some t \<Rightarrow> Inr (allocate st t))"

text \<open>A task of the editor API, with the command line of its \<^verbatim>\<open>ShellExecution\<close>. The
  definition is a reference into the store.\<close>

record DockerTask =
  taskDefinition :: jsval
  taskScope :: "string option"
  taskName :: string
  taskSource :: string
  taskExecution :: "ShellQuotedString list"
  problemMatchers :: "string list"

text \<open>
  \<^verbatim>\<open>resolveDockerBuildOptions\<close> and \<^verbatim>\<open>resolveDockerRunOptions\<close> of the platform helpers belong
  to modules that are not verified here: a helper is a parameter, from the store, the workspace
  folder, the options object and the platform options object to the store after the call
  and the resolved options object or a rejection.
\<close>

type_synonym task_helper =
  "store \<Rightarrow> string \<Rightarrow> jsval \<Rightarrow> jsval \<Rightarrow> (task_error + jsval) \<times> store"

text \<open>The command line is read from the resolved options object: a parameter, from the
  store and the object to the tokens.\<close>

type_synonym command_line_reader = "store \<Rightarrow> jsval \<Rightarrow> ShellQuotedString list"

text \<open>\<^verbatim>\<open>v || {}\<close>: the value when it is truthy, a new object otherwise.\<close>

definition orNewObject :: "store \<Rightarrow> jsval \<Rightarrow> store \<times> jsval" where
  "orNewObject st v = (if truthyVal v then (st, v) else newObject st)"

text \<open>
  The \<^verbatim>\<open>switch (taskPlatform)\<close> of \<^verbatim>\<open>resolveTaskInternal\<close>: the helper of the platform is
  called on the options object and the platform options object of the definition; any
  other platform is an error.
\<close>

definition resolveOptions ::
  "task_helper \<Rightarrow> task_helper \<Rightarrow> string option \<Rightarrow> store \<Rightarrow> string \<Rightarrow> jsval \<Rightarrow> string
   \<Rightarrow> (task_error + jsval) \<times> store" where
  "resolveOptions netCoreTaskHelper nodeTaskHelper taskPlatform st folder definition' field =
     (if taskPlatform = Some ''netCore''
      then netCoreTaskHelper st folder (getField st definition' field)
             (getField st definition' ''netCore'')
      else if taskPlatform = Some ''node''
      then nodeTaskHelper st folder (getField st definition' field)
             (getField st definition' ''node'')
      else (Inl (UnrecognizedTaskPlatform (getField st definition' ''platform'')), st))"

text \<open>
  \<^verbatim>\<open>resolveTaskInternal\<close> of the two providers differs in the name of the options field, in
  the helper method and in the command line. The result is what the call returns or
  throws, and the store after it.
\<close>

definition resolveTaskInternal ::
  "string \<Rightarrow> task_helper \<Rightarrow> task_helper \<Rightarrow> command_line_reader \<Rightarrow> DockerTask \<Rightarrow> string option
   \<Rightarrow> store \<Rightarrow> (task_error + DockerTask) \<times> store" where
  "resolveTaskInternal field netCoreTaskHelper nodeTaskHelper resolveCommandLine' task taskPlatform st =
     (case cloneObject st (taskDefinition task) of
        Inl e \<Rightarrow> (Inl e, st)
      | Inr (st1, definition') \<Rightarrow>
          (let (st2, options) = orNewObject st1 (getField st1 definition' field);
               st3 = setField st2 definition' field options
           in case taskScope task of
                None \<Rightarrow> (Inl (UnableToDetermineScope (taskName task)), st3)
              | Some folder \<Rightarrow>
                  (let (r, st4) = resolveOptions netCoreTaskHelper nodeTaskHelper taskPlatform
                                    st3 folder definition' field
                   in case r of
                        Inl e \<Rightarrow> (Inl e, st4)
                      | Inr resolvedOptions \<Rightarrow>
                          (let st5 = setField st4 definition' field resolvedOptions;
                               commandLine = resolveCommandLine' st5 (getField st5 definition' field)
                           in (Inr (task\<lparr>taskExecution := commandLine\<rparr>), st5)))))"

text \<open>\<^verbatim>\<open>DockerBuildTaskProvider.resolveTaskInternal\<close> and
  \<^verbatim>\<open>DockerRunTaskProvider.resolveTaskInternal\<close>.\<close>

definition resolveBuildTaskInternal ::
  "task_helper \<Rightarrow> task_helper \<Rightarrow> command_line_reader \<Rightarrow> DockerTask \<Rightarrow> string option
   \<Rightarrow> store \<Rightarrow> (task_error + DockerTask) \<times> store" where
  "resolveBuildTaskInternal = resolveTaskInternal ''dockerBuild''"

definition resolveRunTaskInternal ::
  "task_helper \<Rightarrow> task_helper \<Rightarrow> command_line_reader \<Rightarrow> DockerTask \<Rightarrow> string option
   \<Rightarrow> store \<Rightarrow> (task_error + DockerTask) \<times> store" where
  "resolveRunTaskInternal = resolveTaskInternal ''dockerRun''"

text \<open>
  Modelled from the spec: \<^verbatim>\<open>getPlatform\<close> (\<^verbatim>\<open>debugging/DockerPlatformHelper\<close>) is not part of the
  source verified here. The spec has the classifier pure and total: it is a parameter that reads
  the definition from the store.
\<close>

type_synonym platform_reader = "store \<Rightarrow> jsval \<Rightarrow> string option"

text \<open>\<^verbatim>\<open>resolveTask\<close> of the two providers, as far as the internal call goes: the telemetry
  wrapper of an external library is not part of the model.\<close>

definition resolveBuildTask ::
  "platform_reader \<Rightarrow> task_helper \<Rightarrow> task_helper \<Rightarrow> command_line_reader \<Rightarrow> DockerTask
   \<Rightarrow> store \<Rightarrow> (task_error + DockerTask) \<times> store" where
  "resolveBuildTask getPlatform netCoreTaskHelper nodeTaskHelper resolveCommandLine' task st =
     (let taskPlatform = getPlatform st (taskDefinition task)
      in resolveBuildTaskInternal netCoreTaskHelper nodeTaskHelper resolveCommandLine' task
           taskPlatform st)"

definition resolveRunTask ::
  "platform_reader \<Rightarrow> task_helper \<Rightarrow> task_helper \<Rightarrow> command_line_reader \<Rightarrow> DockerTask
   \<Rightarrow> store \<Rightarrow> (task_error + DockerTask) \<times> store" where
  "resolveRunTask getPlatform netCoreTaskHelper nodeTaskHelper resolveCommandLine' task st =
     (let taskPlatform = getPlatform st (taskDefinition task)
      in resolveRunTaskInternal netCoreTaskHelper nodeTaskHelper resolveCommandLine' task
           taskPlatform st)"

text \<open>The build options object of the store as \<open>DockerBuildOptions\<close>, and the command line
  of the build provider read from it.\<close>

definition stringField :: "store \<Rightarrow> jsval \<Rightarrow> string \<Rightarrow> string option" where
  "stringField st v f = (case getField st v f of Prim (PString s) \<Rightarrow> Some s | _ \<Rightarrow> None)"

definition boolField :: "store \<Rightarrow> jsval \<Rightarrow> string \<Rightarrow> bool option" where
  "boolField st v f = (case getField st v f of Prim (PBool b) \<Rightarrow> Some b | _ \<Rightarrow> None)"

fun stringProperties :: "jsobject \<Rightarrow> (string \<times> string) list" where
  "stringProperties [] = []"
| "stringProperties ((k, Prim (PString s)) # ps) = (k, s) # stringProperties ps"
| "stringProperties ((k, v) # ps) = stringProperties ps"

definition mapField :: "store \<Rightarrow> jsval \<Rightarrow> string \<Rightarrow> (string \<times> string) list option" where
  "mapField st v f =
     (case getField st v f of
        Ref a \<Rightarrow> (if a < length st then Some (stringProperties (st ! a)) else None)
      | Prim p \<Rightarrow> None)"

definition readBuildOptions :: "store \<Rightarrow> jsval \<Rightarrow> DockerBuildOptions" where
  "readBuildOptions st v =
     \<lparr>args = mapField st v ''args'', buildContext = stringField st v ''context'',
      dockerfile = stringField st v ''dockerfile'', labels = mapField st v ''labels'',
      tag = stringField st v ''tag'', target = stringField st v ''target'',
      pull = boolField st v ''pull''\<rparr>"

definition buildCommandLineReader :: "(char \<Rightarrow> bool) \<Rightarrow> command_line_reader" where
  "buildCommandLineReader special st v = resolveBuildCommandLine special (readBuildOptions st v)"

text \<open>
  What a helper may write to: the objects it reaches from its arguments and the objects
  it creates. Stated on regions of the store: when the arguments lie in the objects from
  address \<open>b\<close> on, and these refer to each other only, the call leaves every object below
  \<open>b\<close> as it is.
\<close>

definition inRegion :: "addr \<Rightarrow> store \<Rightarrow> jsval \<Rightarrow> bool" where
  "inRegion b st v = (case v of Ref a \<Rightarrow> b \<le> a \<and> a < length st | Prim p \<Rightarrow> True)"

definition closedRegion :: "addr \<Rightarrow> store \<Rightarrow> bool" where
  "closedRegion b st = list_all (\<lambda>ob. list_all (\<lambda>(k, v). inRegion b st v) ob) (drop b st)"

definition keepsBelow :: "addr \<Rightarrow> store \<Rightarrow> store \<Rightarrow> bool" where
  "keepsBelow b st st' = (length st \<le> length st' \<and> take b st' = take b st)"

definition writesOwnObjects :: "task_helper \<Rightarrow> bool" where
  "writesOwnObjects helper =
     (\<forall>st folder opts platformOpts b.
        b \<le> length st \<and> closedRegion b st \<and> inRegion b st opts \<and> inRegion b st platformOpts
        \<longrightarrow> keepsBelow b st (snd (helper st folder opts platformOpts)))"

section \<open>Example configurations\<close>

text \<open>Two tasks whose \<^verbatim>\<open>dependsOn\<close> lists name each other, neither of the sought type.\<close>

definition cyclicTasks :: "TaskDefinitionBase list" where
  "cyclicTasks = [mkTask ''A'' ''shell'' (Some (DependsOnLabels [''B''])),
                  mkTask ''B'' ''shell'' (Some (DependsOnLabels [''A'']))]"

text \<open>A build task and a run task that depends on it.\<close>

definition chainTasks :: "TaskDefinitionBase list" where
  "chainTasks = [mkTask ''A'' ''docker-build'' None,
                 mkTask ''B'' ''docker-run'' (Some (DependsOnLabels [''A'']))]"

definition chainRank :: "TaskDefinitionBase \<Rightarrow> nat" where
  "chainRank t = (if label t = Some ''A'' then 0 else if label t = Some ''B'' then 1 else 2)"

text \<open>A debug configuration with the given \<^verbatim>\<open>preLaunchTask\<close>, every optional field absent.\<close>

definition debugConfig :: "string \<Rightarrow> DockerDebugConfiguration" where
  "debugConfig l = \<lparr>dbgType = ''docker-launch'', dbgPreLaunchTask = Some l, dbgPlatform = None,
     dbgNetCore = None, dbgNode = None, removeContainerAfterDebug = None,
     containerNameToKill = None\<rparr>"

text \<open>Run and build options with every field absent, and tasks that carry an image or a tag.\<close>

definition emptyRunOptions :: DockerRunOptions where
  "emptyRunOptions = \<lparr>command = None, containerName = None, entrypoint = None, env = None,
     envFiles = None, extraHosts = None, image = None, runLabels = None, network = None,
     networkAlias = None, os = None, ports = None, portsPublishAll = None, volumes = None\<rparr>"

definition runOptionsWith :: "string option \<Rightarrow> DockerRunOptions" where
  "runOptionsWith i = emptyRunOptions\<lparr>image := i\<rparr>"

definition runTaskWith :: "string option \<Rightarrow> DockerRunTaskDefinition" where
  "runTaskWith i = (mkTask ''run'' ''docker-run'' None)\<lparr>dockerRun := Some (runOptionsWith i)\<rparr>"

definition emptyBuildOptions :: DockerBuildOptions where
  "emptyBuildOptions = \<lparr>args = None, buildContext = None, dockerfile = None, labels = None,
     tag = None, target = None, pull = None\<rparr>"

definition buildOptionsWith :: "string option \<Rightarrow> DockerBuildOptions" where
  "buildOptionsWith t = emptyBuildOptions\<lparr>tag := t\<rparr>"

definition buildTaskWith :: "string option \<Rightarrow> DockerBuildTaskDefinition" where
  "buildTaskWith t = (mkTask ''build'' ''docker-build'' None)\<lparr>dockerBuild := Some (buildOptionsWith t)\<rparr>"

definition contextWith :: "string option \<Rightarrow> DockerRunTaskContext" where
  "contextWith t = \<lparr>runTaskResult = None, buildDefinition = Some (buildTaskWith t)\<rparr>"

text \<open>A debug configuration with the given platform tag and options bags.\<close>

definition platformConfig ::
  "string option \<Rightarrow> options_bag option \<Rightarrow> options_bag option \<Rightarrow> DockerDebugConfiguration" where
  "platformConfig p nc nd = \<lparr>dbgType = ''docker-launch'', dbgPreLaunchTask = None, dbgPlatform = p,
     dbgNetCore = nc, dbgNode = nd, removeContainerAfterDebug = None,
     containerNameToKill = None\<rparr>"

text \<open>
  A resolved debug configuration with the given \<^verbatim>\<open>removeContainerAfterDebug\<close> and
  \<^verbatim>\<open>_containerNameToKill\<close>, a helper that returns it, a session that carries it, and a host
  on which nothing is registered.
\<close>

definition killConfig :: "bool option \<Rightarrow> string option \<Rightarrow> DockerDebugConfiguration" where
  "killConfig r k = \<lparr>dbgType = ''docker-launch'', dbgPreLaunchTask = None,
     dbgPlatform = Some ''node'', dbgNetCore = None, dbgNode = None,
     removeContainerAfterDebug = r, containerNameToKill = k\<rparr>"

definition helperReturning :: "DockerDebugConfiguration \<Rightarrow> debug_helper" where
  "helperReturning c = (\<lambda>folder debugConfiguration. Inr (Some c))"

definition sessionOf :: "bool option \<Rightarrow> string option \<Rightarrow> DebugSession" where
  "sessionOf r k = \<lparr>configuration = killConfig r k\<rparr>"

definition emptyHost :: DebugHost where
  "emptyHost = \<lparr>listeners = [], nextId = 0, removeCalls = [], pendingRemovals = []\<rparr>"

text \<open>Two live sessions, of the containers \<^verbatim>\<open>c1\<close> and \<^verbatim>\<open>c2\<close>, each with its listener.\<close>

definition twoSessionsHost :: DebugHost where
  "twoSessionsHost = \<lparr>listeners = [\<lparr>lid = 0, watching = killConfig (Some True) (Some ''c1'')\<rparr>,
                                    \<lparr>lid = 1, watching = killConfig (Some True) (Some ''c2'')\<rparr>],
                      nextId = 2, removeCalls = [], pendingRemovals = []\<rparr>"

text \<open>Run options that publish one port and name an image.\<close>

definition webRunOptions :: "bool option \<Rightarrow> DockerRunOptions" where
  "webRunOptions pa = emptyRunOptions\<lparr>image := Some ''web:dev'',
     ports := Some [\<lparr>hostPort = Some 8080, containerPort = 80, protocol = Some Tcp\<rparr>],
     portsPublishAll := pa\<rparr>"

text \<open>
  A store with a build task definition and its options object, a task of that
  definition, a helper that fills in the tag by assigning to the options object it is
  given, and a classifier that reads the platform tag.
\<close>

definition buildStore :: store where
  "buildStore = [[(''type'', Prim (PString ''docker-build'')), (''platform'', Prim (PString ''node'')),
                  (''dockerBuild'', Ref 1)],
                 [(''context'', Prim (PString ''.''))]]"

definition buildTask :: DockerTask where
  "buildTask = \<lparr>taskDefinition = Ref 0, taskScope = Some ''/work'', taskName = ''docker-build'',
     taskSource = ''Workspace'', taskExecution = [], problemMatchers = []\<rparr>"

definition taggingHelper :: task_helper where
  "taggingHelper st folder opts platformOpts =
     (Inr opts, setField st opts ''tag'' (Prim (PString ''app:latest'')))"

definition platformField :: platform_reader where
  "platformField st v = stringField st v ''platform''"

section \<open>Properties of the image names\<close>

lemma isLowerAlnum_toLowerChar: "isAlnum c \<Longrightarrow> isLowerAlnum (toLowerChar c)"
  by (auto simp: isAlnum_def isLowerAlnum_def toLowerChar_def Let_def)

lemma list_all_getValidImageName: "list_all isLowerAlnum (getValidImageName nameHint)"
proof -
  have "list_all isLowerAlnum (toLowerCase (filter isAlnum nameHint))"
    by (simp add: toLowerCase_def list_all_iff isLowerAlnum_toLowerChar)
  moreover have "list_all isLowerAlnum ''image''"
    by (simp add: isLowerAlnum_def)
  ultimately show ?thesis
    by (simp add: getValidImageName_def Let_def)
qed

lemma colon_not_alnum: "isLowerAlnum c \<Longrightarrow> c \<noteq> CHR '':''"
  by (auto simp: isLowerAlnum_def)

lemma takeWhile_name:
  assumes "list_all isLowerAlnum n"
  shows "takeWhile (\<lambda>c. c \<noteq> CHR '':'') (n @ '':'' @ rest) = n"
proof -
  have "\<forall>c\<in>set n. c \<noteq> CHR '':''"
    using assms colon_not_alnum by (auto simp: list_all_iff)
  then show ?thesis
    by simp
qed

text \<open>
  C9. \<open>getDefaultImageName\<close> is the valid image name of the hint, a colon and the tag,
  \<^verbatim>\<open>latest\<close> when no tag is given. The part before the colon is the valid image name: the
  ASCII letters and digits of the hint in their order, lowercased, or \<^verbatim>\<open>image\<close> when the
  hint has none; it holds lowercase letters and digits only. The hint \<^verbatim>\<open>My App!\<close> gives
  \<^verbatim>\<open>myapp:latest\<close>, and a hint without a letter or digit gives \<^verbatim>\<open>image:latest\<close>.
\<close>

theorem getDefaultImageName_sanitized:
  "getDefaultImageName nameHint t =
     getValidImageName nameHint @ '':'' @ tagString (case t of None \<Rightarrow> Latest | Some v \<Rightarrow> v)
   \<and> takeWhile (\<lambda>c. c \<noteq> CHR '':'') (getDefaultImageName nameHint t) = getValidImageName nameHint
   \<and> list_all isLowerAlnum (getValidImageName nameHint)
   \<and> getValidImageName nameHint =
       (if filter isAlnum nameHint = [] then ''image'' else map toLowerChar (filter isAlnum nameHint))
   \<and> getDefaultImageName ''My App!'' None = ''myapp:latest''
   \<and> (filter isAlnum nameHint = [] \<longrightarrow> getDefaultImageName nameHint None = ''image:latest'')"
proof -
  have a: "getDefaultImageName nameHint t =
     getValidImageName nameHint @ '':'' @ tagString (case t of None \<Rightarrow> Latest | Some v \<Rightarrow> v)"
    by (simp add: getDefaultImageName_def getValidImageNameWithTag_def)
  have b: "list_all isLowerAlnum (getValidImageName nameHint)"
    by (rule list_all_getValidImageName)
  have c: "takeWhile (\<lambda>c. c \<noteq> CHR '':'') (getDefaultImageName nameHint t) = getValidImageName nameHint"
    unfolding a by (rule takeWhile_name [OF b])
  have d: "getValidImageName nameHint =
       (if filter isAlnum nameHint = [] then ''image'' else map toLowerChar (filter isAlnum nameHint))"
    by (simp add: getValidImageName_def toLowerCase_def)
  have e: "getDefaultImageName ''My App!'' None = ''myapp:latest''"
    by code_simp
  have f: "filter isAlnum nameHint = [] \<longrightarrow> getDefaultImageName nameHint None = ''image:latest''"
    by (simp add: getDefaultImageName_def getValidImageNameWithTag_def getValidImageName_def
        toLowerCase_def)
  from a b c d e f show ?thesis by blast
qed

theorem getDefaultImageName_sanitized_witness:
  "filter isAlnum ''?! -'' = [] \<and> getDefaultImageName ''?! -'' None = ''image:latest''
   \<and> getDefaultImageName ''Web.Api_2'' (Some Dev) = ''webapi2:dev''"
proof -
  have h: "filter isAlnum ''?! -'' = []"
    by (simp add: isAlnum_def)
  have "getDefaultImageName ''Web.Api_2'' (Some Dev) = ''webapi2:dev''"
    using getDefaultImageName_sanitized [of "''Web.Api_2''" "Some Dev"]
    by code_simp
  with h getDefaultImageName_sanitized [of "''?! -''" None] show ?thesis
    by simp
qed

text \<open>
  C5. \<open>inferImageName\<close> returns the image of the run options when it is set, otherwise the
  tag of the bound build definition when that is set, otherwise the default image name of
  the name hint. A string is set when it is present and not empty, which is what the
  \<^verbatim>\<open>||\<close> chain of the source tests.
\<close>

theorem inferImageName_precedence:
  "(dockerRun r = Some ro \<and> image ro = Some x \<and> x \<noteq> [] \<longrightarrow>
      inferImageName (Some r) ctx z t = x)
   \<and> (\<not> truthy (runImage runOptions) \<and> buildDefinition c = Some b \<and> dockerBuild b = Some bo
       \<and> tag bo = Some y \<and> y \<noteq> [] \<longrightarrow>
      inferImageName runOptions (Some c) z t = y)
   \<and> (\<not> truthy (runImage runOptions) \<and> \<not> truthy (buildTag ctx) \<longrightarrow>
      inferImageName runOptions ctx z t = getDefaultImageName z t)"
  by (simp add: inferImageName_def runImage_def buildTag_def truthy_def)

theorem inferImageName_precedence_witness:
  "inferImageName (Some (runTaskWith (Some ''x''))) (Some (contextWith (Some ''y''))) ''z'' None = ''x''
   \<and> inferImageName (Some (runTaskWith None)) (Some (contextWith (Some ''y''))) ''z'' None = ''y''
   \<and> inferImageName (Some (runTaskWith None)) (Some (contextWith None)) ''z'' None = ''z:latest''
   \<and> inferImageName None None ''z'' None = getDefaultImageName ''z'' None"
proof -
  let ?r = "\<lambda>i. runTaskWith i" and ?c = "\<lambda>t. contextWith t"
  have a: "inferImageName (Some (?r (Some ''x''))) (Some (?c (Some ''y''))) ''z'' None = ''x''"
    using inferImageName_precedence [where r = "?r (Some ''x'')" and ro = "runOptionsWith (Some ''x'')"
        and x = "''x''" and ctx = "Some (?c (Some ''y''))" and z = "''z''" and t = None]
    by (simp add: runTaskWith_def runOptionsWith_def)
  have b: "inferImageName (Some (?r None)) (Some (?c (Some ''y''))) ''z'' None = ''y''"
    using inferImageName_precedence [where runOptions = "Some (?r None)" and c = "?c (Some ''y'')"
        and b = "buildTaskWith (Some ''y'')" and bo = "buildOptionsWith (Some ''y'')"
        and y = "''y''" and z = "''z''" and t = None]
    by (simp add: runTaskWith_def runOptionsWith_def contextWith_def buildTaskWith_def
        buildOptionsWith_def runImage_def truthy_def)
  have c: "inferImageName (Some (?r None)) (Some (?c None)) ''z'' None = getDefaultImageName ''z'' None"
    using inferImageName_precedence [where runOptions = "Some (?r None)" and ctx = "Some (?c None)"
        and z = "''z''" and t = None]
    by (simp add: runTaskWith_def runOptionsWith_def contextWith_def buildTaskWith_def
        buildOptionsWith_def runImage_def buildTag_def truthy_def)
  have d: "inferImageName None None ''z'' None = getDefaultImageName ''z'' None"
    using inferImageName_precedence [where runOptions = None and ctx = None and z = "''z''" and t = None]
    by (simp add: runImage_def buildTag_def truthy_def)
  have e: "getDefaultImageName ''z'' None = ''z:latest''"
    by code_simp
  from a b c d e show ?thesis by simp
qed

section \<open>Properties of the platform classifier\<close>

text \<open>
  C2, as the code has it. \<open>determineDebugPlatform\<close> is a total function. It returns
  \<^verbatim>\<open>netCore\<close> exactly when the platform tag is \<^verbatim>\<open>netCore\<close> or the \<^verbatim>\<open>netCore\<close> options bag is
  present (whatever the tag is); otherwise \<^verbatim>\<open>node\<close> exactly when the tag is \<^verbatim>\<open>node\<close> or
  the \<^verbatim>\<open>node\<close> options bag is present; otherwise \<^verbatim>\<open>unknown\<close>, in particular when neither
  a tag nor a bag is present.
\<close>

theorem determineDebugPlatform_classifier:
  "(determineDebugPlatform dc = NetCore \<longleftrightarrow>
      dbgPlatform dc = Some ''netCore'' \<or> dbgNetCore dc \<noteq> None)
   \<and> (determineDebugPlatform dc = Node \<longleftrightarrow>
      dbgPlatform dc \<noteq> Some ''netCore'' \<and> dbgNetCore dc = None
      \<and> (dbgPlatform dc = Some ''node'' \<or> dbgNode dc \<noteq> None))
   \<and> (determineDebugPlatform dc = Unknown \<longleftrightarrow>
      dbgPlatform dc \<noteq> Some ''netCore'' \<and> dbgNetCore dc = None
      \<and> dbgPlatform dc \<noteq> Some ''node'' \<and> dbgNode dc = None)
   \<and> (dbgPlatform dc = None \<and> dbgNetCore dc = None \<and> dbgNode dc = None \<longrightarrow>
      determineDebugPlatform dc = Unknown)"
  by (auto simp: determineDebugPlatform_def)

theorem determineDebugPlatform_classifier_witness:
  "determineDebugPlatform (platformConfig None None None) = Unknown
   \<and> determineDebugPlatform (platformConfig (Some ''netCore'') None (Some [])) = NetCore
   \<and> determineDebugPlatform (platformConfig None None (Some [])) = Node"
  using determineDebugPlatform_classifier [of "platformConfig None None None"]
    determineDebugPlatform_classifier [of "platformConfig (Some ''netCore'') None (Some [])"]
    determineDebugPlatform_classifier [of "platformConfig None None (Some [])"]
  by (simp add: platformConfig_def)

text \<open>
  The platform tag does not win over a conflicting options bag: a configuration tagged
  \<^verbatim>\<open>node\<close> that carries the \<^verbatim>\<open>netCore\<close> options bag is classified \<^verbatim>\<open>netCore\<close>.
\<close>

theorem determineDebugPlatform_tag_counterexample:
  "determineDebugPlatform (platformConfig (Some ''node'') (Some []) None) = NetCore
   \<and> determineDebugPlatform (platformConfig (Some ''node'') (Some []) None) \<noteq> Node"
  by (simp add: determineDebugPlatform_def platformConfig_def)

section \<open>Properties of the stored task list\<close>

lemma findIndexFrom_none: "\<forall>x\<in>set xs. \<not> p x \<Longrightarrow> findIndexFrom k p xs = -1"
  by (induction xs arbitrary: k) auto

lemma findIndexFrom_first:
  "\<exists>x\<in>set xs. p x \<Longrightarrow>
   \<exists>i<length xs. p (xs ! i) \<and> (\<forall>j<i. \<not> p (xs ! j)) \<and> findIndexFrom k p xs = k + int i"
proof (induction xs arbitrary: k)
  case Nil
  then show ?case by simp
next
  case (Cons x xs)
  show ?case
  proof (cases "p x")
    case True
    then show ?thesis by (intro exI [of _ 0]) simp
  next
    case False
    with Cons.prems have "\<exists>y\<in>set xs. p y" by auto
    from Cons.IH [OF this, of "k + 1"] obtain i where
      i: "i < length xs" "p (xs ! i)" "\<forall>j<i. \<not> p (xs ! j)" "findIndexFrom (k + 1) p xs = k + 1 + int i"
      by blast
    have "\<forall>j<Suc i. \<not> p ((x # xs) ! j)"
      using False i(3) by (auto simp: less_Suc_eq_0_disj)
    with i False show ?thesis
      by (intro exI [of _ "Suc i"]) simp
  qed
qed

text \<open>
  C8. \<open>addTask\<close> is an upsert keyed by the label. When a stored task has the label of the
  new task and \<^verbatim>\<open>overwrite\<close> is true, the first such entry is replaced, the other entries
  stay, and the result is true. When a stored task has the label and \<^verbatim>\<open>overwrite\<close> is
  false or undefined, the result is false and the configuration is the one before the
  call. When no stored task has the label, the new task is appended at the end and the
  result is true.
\<close>

theorem addTask_upsert:
  "((\<exists>t\<in>set (storedTasks ws). label t = label newTask) \<and> overwrite = Some True \<longrightarrow>
      (\<exists>i<length (storedTasks ws).
          label (storedTasks ws ! i) = label newTask
        \<and> (\<forall>j<i. label (storedTasks ws ! j) \<noteq> label newTask)
        \<and> addTask newTask overwrite ws = (True, ws\<lparr>tasks := Some ((storedTasks ws)[i := newTask])\<rparr>)))
   \<and> ((\<exists>t\<in>set (storedTasks ws). label t = label newTask) \<and> (overwrite = Some False \<or> overwrite = None) \<longrightarrow>
        addTask newTask overwrite ws = (False, ws))
   \<and> ((\<forall>t\<in>set (storedTasks ws). label t \<noteq> label newTask) \<longrightarrow>
        addTask newTask overwrite ws = (True, ws\<lparr>tasks := Some (storedTasks ws @ [newTask])\<rparr>))"
proof (intro conjI impI)
  assume h: "(\<exists>t\<in>set (storedTasks ws). label t = label newTask) \<and> overwrite = Some True"
  from findIndexFrom_first [of "storedTasks ws" "\<lambda>t. label t = label newTask" 0] h
  obtain i where i: "i < length (storedTasks ws)" "label (storedTasks ws ! i) = label newTask"
    "\<forall>j<i. label (storedTasks ws ! j) \<noteq> label newTask"
    "findIndexFrom 0 (\<lambda>t. label t = label newTask) (storedTasks ws) = 0 + int i"
    by blast
  have "addTask newTask overwrite ws = (True, ws\<lparr>tasks := Some ((storedTasks ws)[i := newTask])\<rparr>)"
    using h i(4) by (simp add: addTask_def findIndex_def truthyBool_def updateTasks_def)
  with i show "\<exists>i<length (storedTasks ws).
          label (storedTasks ws ! i) = label newTask
        \<and> (\<forall>j<i. label (storedTasks ws ! j) \<noteq> label newTask)
        \<and> addTask newTask overwrite ws = (True, ws\<lparr>tasks := Some ((storedTasks ws)[i := newTask])\<rparr>)"
    by blast
next
  assume h: "(\<exists>t\<in>set (storedTasks ws). label t = label newTask) \<and> (overwrite = Some False \<or> overwrite = None)"
  from findIndexFrom_first [of "storedTasks ws" "\<lambda>t. label t = label newTask" 0] h
  obtain i where "findIndexFrom 0 (\<lambda>t. label t = label newTask) (storedTasks ws) = 0 + int i"
    by blast
  with h show "addTask newTask overwrite ws = (False, ws)"
    by (auto simp: addTask_def findIndex_def truthyBool_def)
next
  assume "\<forall>t\<in>set (storedTasks ws). label t \<noteq> label newTask"
  then have "findIndexFrom 0 (\<lambda>t. label t = label newTask) (storedTasks ws) = -1"
    by (intro findIndexFrom_none) simp
  then show "addTask newTask overwrite ws = (True, ws\<lparr>tasks := Some (storedTasks ws @ [newTask])\<rparr>)"
    by (simp add: addTask_def findIndex_def updateTasks_def)
qed

theorem addTask_upsert_witness:
  "addTask (mkTask ''B'' ''shell'' None) (Some True) \<lparr>tasks = Some chainTasks\<rparr> =
     (True, \<lparr>tasks = Some [chainTasks ! 0, mkTask ''B'' ''shell'' None]\<rparr>)
   \<and> addTask (mkTask ''B'' ''shell'' None) None \<lparr>tasks = Some chainTasks\<rparr> =
     (False, \<lparr>tasks = Some chainTasks\<rparr>)
   \<and> addTask (mkTask ''B'' ''shell'' None) (Some False) \<lparr>tasks = Some chainTasks\<rparr> =
     (False, \<lparr>tasks = Some chainTasks\<rparr>)
   \<and> addTask (mkTask ''C'' ''shell'' None) None \<lparr>tasks = Some chainTasks\<rparr> =
     (True, \<lparr>tasks = Some (chainTasks @ [mkTask ''C'' ''shell'' None])\<rparr>)
   \<and> addTask (mkTask ''C'' ''shell'' None) None \<lparr>tasks = None\<rparr> =
     (True, \<lparr>tasks = Some [mkTask ''C'' ''shell'' None]\<rparr>)"
proof -
  let ?ws = "\<lparr>tasks = Some chainTasks\<rparr>"
  let ?B = "mkTask ''B'' ''shell'' None" and ?C = "mkTask ''C'' ''shell'' None"
  have st: "storedTasks ?ws = chainTasks" "storedTasks \<lparr>tasks = None\<rparr> = []"
    by (simp_all add: storedTasks_def)
  have inB: "\<exists>t\<in>set (storedTasks ?ws). label t = label ?B"
    unfolding st by (simp add: chainTasks_def mkTask_def)
  have noC: "\<forall>t\<in>set (storedTasks ?ws). label t \<noteq> label ?C"
    unfolding st by (simp add: chainTasks_def mkTask_def)
  from addTask_upsert [of ?ws ?B "Some True"] inB
  obtain i where i: "i < length chainTasks" "label (chainTasks ! i) = label ?B"
    "addTask ?B (Some True) ?ws = (True, ?ws\<lparr>tasks := Some (chainTasks[i := ?B])\<rparr>)"
    unfolding st by blast
  have "i = 1"
    using i(1,2) by (cases i) (auto simp: chainTasks_def mkTask_def)
  with i(3) have a: "addTask ?B (Some True) ?ws = (True, \<lparr>tasks = Some [chainTasks ! 0, ?B]\<rparr>)"
    by (simp add: chainTasks_def)
  have b: "addTask ?B None ?ws = (False, ?ws)"
    using addTask_upsert [of ?ws ?B None] inB by simp
  have c: "addTask ?B (Some False) ?ws = (False, ?ws)"
    using addTask_upsert [of ?ws ?B "Some False"] inB by simp
  have d: "addTask ?C None ?ws = (True, \<lparr>tasks = Some (chainTasks @ [?C])\<rparr>)"
    using addTask_upsert [of ?ws ?C None] noC by (simp add: st)
  have e: "addTask ?C None \<lparr>tasks = None\<rparr> = (True, \<lparr>tasks = Some [?C]\<rparr>)"
    using addTask_upsert [of "\<lparr>tasks = None\<rparr>" ?C None] by (simp add: st)
  from a b c d e show ?thesis by simp
qed

section \<open>Properties of the task dependency resolver\<close>

lemma forLabels_returns:
  "\<forall>l\<in>set ls. \<exists>r. body l = Some r \<Longrightarrow> \<exists>r. forLabels body ls = Some r"
  by (induction ls) (auto split: option.splits)

lemma find_in_set: "find p xs = Some x \<Longrightarrow> x \<in> set xs"
  by (induction xs) (auto split: if_splits)

lemma set_resolved [simp]: "m \<in> set (resolved x) \<longleftrightarrow> x = Some m"
  by (cases x) auto

lemma followedNodes_in_tasks:
  assumes "m \<in> set (followedNodes allTasks ty n)"
  shows "m \<in> set allTasks"
proof -
  have "(\<exists>l. findTaskByLabel allTasks l = Some m) \<or> (\<exists>t. findTaskByType allTasks t = Some m)"
  proof (cases "dependsOn n")
    case None
    with assms show ?thesis
      by (auto simp: followedNodes_def split: if_splits)
  next
    case (Some d)
    with assms show ?thesis
      by (cases d) (auto simp: followedNodes_def split: if_splits)
  qed
  then show ?thesis
    by (auto simp: findTaskByLabel_def findTaskByType_def dest: find_in_set)
qed

lemma resolver_step:
  assumes "\<forall>m\<in>set (followedNodes allTasks ty n). \<exists>r. recursiveFindTaskByType allTasks ty (Some m) = Some r"
  shows "\<exists>r. recursiveFindTaskByType allTasks ty (Some n) = Some r"
proof -
  have sub: "\<exists>r. recursiveFindTaskByType allTasks ty m = Some r"
    if "\<forall>m'. m = Some m' \<longrightarrow> m' \<in> set (followedNodes allTasks ty n)" for m
    using that assms by (cases m) (auto simp: recursiveFindTaskByType.simps)
  show ?thesis
  proof (cases "truthy (preLaunchTask n)")
    case True
    then show ?thesis
      using sub [of "findTaskByLabel allTasks (the (preLaunchTask n))"]
      by (subst recursiveFindTaskByType.simps) (auto simp: followedNodes_def)
  next
    case pre: False
    show ?thesis
    proof (cases "type n = ty")
      case True
      with pre show ?thesis by (subst recursiveFindTaskByType.simps) simp
    next
      case ty: False
      show ?thesis
      proof (cases "dependsOn n")
        case None
        with pre ty show ?thesis by (subst recursiveFindTaskByType.simps) simp
      next
        case (Some d)
        show ?thesis
        proof (cases d)
          case (DependsOnLabels ls)
          have "\<forall>l\<in>set ls. \<exists>r. recursiveFindTaskByType allTasks ty (findTaskByLabel allTasks l) = Some r"
          proof
            fix l assume "l \<in> set ls"
            then show "\<exists>r. recursiveFindTaskByType allTasks ty (findTaskByLabel allTasks l) = Some r"
              using pre ty Some DependsOnLabels
              by (intro sub) (auto simp: followedNodes_def)
          qed
          from forLabels_returns [OF this] pre ty Some DependsOnLabels show ?thesis
            by (subst recursiveFindTaskByType.simps) simp
        next
          case (DependsOnType nextType)
          with pre ty Some show ?thesis
            using sub [of "findTaskByType allTasks nextType"]
            by (subst recursiveFindTaskByType.simps) (auto simp: followedNodes_def)
        qed
      qed
    qed
  qed
qed

lemma resolver_returns_in_tasks:
  fixes rank :: "TaskDefinitionBase \<Rightarrow> nat"
  assumes dec: "\<forall>n\<in>set allTasks. \<forall>m\<in>set (followedNodes allTasks ty n). rank m < rank n"
  shows "n \<in> set allTasks \<Longrightarrow> \<exists>r. recursiveFindTaskByType allTasks ty (Some n) = Some r"
proof (induction "rank n" arbitrary: n rule: less_induct)
  case less
  have "\<forall>m\<in>set (followedNodes allTasks ty n). \<exists>r. recursiveFindTaskByType allTasks ty (Some m) = Some r"
    using less.hyps dec less.prems followedNodes_in_tasks by blast
  then show ?case by (rule resolver_step)
qed

text \<open>
  C1, as the code has it. \<open>recursiveFindTaskByType\<close> returns (a task or \<^verbatim>\<open>undefined\<close>) from
  every start node when the references it follows cannot go on for ever: when some rank
  on the tasks of the task set gets strictly smaller along every reference that the
  resolver follows from a task (the label of \<^verbatim>\<open>preLaunchTask\<close>, the labels of \<^verbatim>\<open>dependsOn\<close>,
  the type of \<^verbatim>\<open>dependsOn\<close>).
\<close>

theorem recursiveFindTaskByType_returns_when_ranked:
  fixes rank :: "TaskDefinitionBase \<Rightarrow> nat"
  assumes "\<forall>n\<in>set allTasks. \<forall>m\<in>set (followedNodes allTasks ty n). rank m < rank n"
  shows "\<exists>r. recursiveFindTaskByType allTasks ty startNode = Some r"
proof (cases startNode)
  case None
  then show ?thesis by (simp add: recursiveFindTaskByType.simps)
next
  case (Some s)
  have "\<forall>m\<in>set (followedNodes allTasks ty s). \<exists>r. recursiveFindTaskByType allTasks ty (Some m) = Some r"
    using resolver_returns_in_tasks [OF assms] followedNodes_in_tasks by blast
  with Some show ?thesis by (simp add: resolver_step)
qed

theorem recursiveFindTaskByType_returns_when_ranked_witness:
  "\<exists>r. recursiveFindTaskByType chainTasks ''docker-build'' (Some (chainTasks ! 1)) = Some r"
proof -
  have "\<forall>n\<in>set chainTasks. \<forall>m\<in>set (followedNodes chainTasks ''docker-build'' n). chainRank m < chainRank n"
    by (simp add: chainTasks_def followedNodes_def mkTask_def truthy_def findTaskByLabel_def chainRank_def)
  then show ?thesis
    by (rule recursiveFindTaskByType_returns_when_ranked)
qed

lemma cyclic_never_returns:
  assumes ret: "recursiveFindTaskByType allTasks ty nd = Some y"
  shows "\<not> (allTasks = cyclicTasks \<and> ty = ''docker-build''
            \<and> (nd = Some (cyclicTasks ! 0) \<or> nd = Some (cyclicTasks ! 1)))"
proof (rule recursiveFindTaskByType.raw_induct
    [where P = "\<lambda>a t n y. \<not> (a = cyclicTasks \<and> t = ''docker-build''
            \<and> (n = Some (cyclicTasks ! 0) \<or> n = Some (cyclicTasks ! 1)))", OF _ ret], goal_cases)
  case prems: (1 rfind a t n z)
  note IH = prems(1)
  show ?case
  proof
    assume h: "a = cyclicTasks \<and> t = ''docker-build''
            \<and> (n = Some (cyclicTasks ! 0) \<or> n = Some (cyclicTasks ! 1))"
    then consider "n = Some (cyclicTasks ! 0)" | "n = Some (cyclicTasks ! 1)" by blast
    then show False
    proof cases
      case 1
      with h \<open>_ = Some z\<close>
      obtain w where "rfind cyclicTasks ''docker-build'' (Some (cyclicTasks ! 1)) = Some w"
        by (auto simp: cyclicTasks_def mkTask_def truthy_def findTaskByLabel_def split: option.splits)
      from IH [OF this] show False by simp
    next
      case 2
      with h \<open>_ = Some z\<close>
      obtain w where "rfind cyclicTasks ''docker-build'' (Some (cyclicTasks ! 0)) = Some w"
        by (auto simp: cyclicTasks_def mkTask_def truthy_def findTaskByLabel_def split: option.splits)
      from IH [OF this] show False by simp
    qed
  qed
qed

text \<open>
  On the task set of two tasks whose \<^verbatim>\<open>dependsOn\<close> lists name each other, the search for a
  \<^verbatim>\<open>docker-build\<close> task does not return, from either task.
\<close>

theorem recursiveFindTaskByType_cyclic_counterexample:
  "recursiveFindTaskByType cyclicTasks ''docker-build'' (Some (cyclicTasks ! 0)) = None
   \<and> recursiveFindTaskByType cyclicTasks ''docker-build'' (Some (cyclicTasks ! 1)) = None"
  using cyclic_never_returns [of cyclicTasks "''docker-build''" "Some (cyclicTasks ! 0)"]
    cyclic_never_returns [of cyclicTasks "''docker-build''" "Some (cyclicTasks ! 1)"]
  by (cases "recursiveFindTaskByType cyclicTasks ''docker-build'' (Some (cyclicTasks ! 0))";
      cases "recursiveFindTaskByType cyclicTasks ''docker-build'' (Some (cyclicTasks ! 1))") auto

lemma forLabels_first:
  "i < length ls \<Longrightarrow> \<forall>j<i. body (ls ! j) = Some None \<Longrightarrow> body (ls ! i) = Some (Some r)
   \<Longrightarrow> forLabels body ls = Some (Some r)"
proof (induction ls arbitrary: i)
  case Nil
  then show ?case by simp
next
  case (Cons l ls)
  show ?case
  proof (cases i)
    case 0
    with Cons.prems show ?thesis by simp
  next
    case (Suc k)
    with Cons.prems have "body l = Some None" by auto
    moreover have "forLabels body ls = Some (Some r)"
      using Cons.prems Suc by (intro Cons.IH [of k]) auto
    ultimately show ?thesis by simp
  qed
qed

text \<open>
  C6. A node with a \<^verbatim>\<open>preLaunchTask\<close> (present and not empty) is resolved from the task of
  that label, whatever the node itself is. Otherwise a node of the sought type is the
  result. Otherwise, for a \<^verbatim>\<open>dependsOn\<close> that is a list of labels, the result is the first
  successful match in the order of the list: the match of the label at position \<open>i\<close>
  when the labels before it each resolve to \<^verbatim>\<open>undefined\<close>. Hence for the tasks
  \<open>[a, b]\<close>, with \<open>a\<close> a \<^verbatim>\<open>docker-build\<close> task and \<open>b\<close> a \<^verbatim>\<open>docker-run\<close> task that depends
  on the label of \<open>a\<close>, and a debug configuration whose \<^verbatim>\<open>preLaunchTask\<close> is the label of
  \<open>b\<close>, \<open>getAssociatedDockerRunTask\<close> returns \<open>b\<close> and \<open>getAssociatedDockerBuildTask\<close> of
  \<open>b\<close> returns \<open>a\<close>.
\<close>

theorem recursiveFindTaskByType_order:
  "(truthy (preLaunchTask n) \<longrightarrow>
      recursiveFindTaskByType allTasks ty (Some n) =
      recursiveFindTaskByType allTasks ty (findTaskByLabel allTasks (the (preLaunchTask n))))
   \<and> (\<not> truthy (preLaunchTask n) \<and> type n = ty \<longrightarrow>
      recursiveFindTaskByType allTasks ty (Some n) = Some (Some n))
   \<and> (\<not> truthy (preLaunchTask n) \<and> type n \<noteq> ty \<and> dependsOn n = Some (DependsOnLabels ls)
       \<and> i < length ls
       \<and> (\<forall>j<i. recursiveFindTaskByType allTasks ty (findTaskByLabel allTasks (ls ! j)) = Some None)
       \<and> recursiveFindTaskByType allTasks ty (findTaskByLabel allTasks (ls ! i)) = Some (Some r) \<longrightarrow>
      recursiveFindTaskByType allTasks ty (Some n) = Some (Some r))
   \<and> (label a = Some la \<and> type a = ''docker-build'' \<and> \<not> truthy (preLaunchTask a)
       \<and> label b = Some lb \<and> type b = ''docker-run'' \<and> \<not> truthy (preLaunchTask b)
       \<and> dependsOn b = Some (DependsOnLabels [la]) \<and> la \<noteq> lb \<and> lb \<noteq> []
       \<and> dbgPreLaunchTask dc = Some lb \<longrightarrow>
      getAssociatedDockerRunTask \<lparr>tasks = Some [a, b]\<rparr> dc = Some (Some b)
      \<and> getAssociatedDockerBuildTask \<lparr>tasks = Some [a, b]\<rparr> lb = Some (Some a))"
proof (intro conjI impI)
  assume "truthy (preLaunchTask n)"
  then show "recursiveFindTaskByType allTasks ty (Some n) =
      recursiveFindTaskByType allTasks ty (findTaskByLabel allTasks (the (preLaunchTask n)))"
    by (subst recursiveFindTaskByType.simps) simp
next
  assume "\<not> truthy (preLaunchTask n) \<and> type n = ty"
  then show "recursiveFindTaskByType allTasks ty (Some n) = Some (Some n)"
    by (subst recursiveFindTaskByType.simps) simp
next
  assume h: "\<not> truthy (preLaunchTask n) \<and> type n \<noteq> ty \<and> dependsOn n = Some (DependsOnLabels ls)
       \<and> i < length ls
       \<and> (\<forall>j<i. recursiveFindTaskByType allTasks ty (findTaskByLabel allTasks (ls ! j)) = Some None)
       \<and> recursiveFindTaskByType allTasks ty (findTaskByLabel allTasks (ls ! i)) = Some (Some r)"
  then have "forLabels (\<lambda>l. recursiveFindTaskByType allTasks ty (findTaskByLabel allTasks l)) ls = Some (Some r)"
    by (intro forLabels_first [of i]) auto
  with h show "recursiveFindTaskByType allTasks ty (Some n) = Some (Some r)"
    by (subst recursiveFindTaskByType.simps) simp
next
  assume h: "label a = Some la \<and> type a = ''docker-build'' \<and> \<not> truthy (preLaunchTask a)
       \<and> label b = Some lb \<and> type b = ''docker-run'' \<and> \<not> truthy (preLaunchTask b)
       \<and> dependsOn b = Some (DependsOnLabels [la]) \<and> la \<noteq> lb \<and> lb \<noteq> []
       \<and> dbgPreLaunchTask dc = Some lb"
  have fa: "findTaskByLabel [a, b] la = Some a" and fb: "findTaskByLabel [a, b] lb = Some b"
    using h by (auto simp: findTaskByLabel_def)
  have ra: "recursiveFindTaskByType [a, b] ''docker-build'' (Some a) = Some (Some a)"
    using h by (subst recursiveFindTaskByType.simps) simp
  have rb: "recursiveFindTaskByType [a, b] ''docker-run'' (Some b) = Some (Some b)"
    using h by (subst recursiveFindTaskByType.simps) simp
  have "recursiveFindTaskByType [a, b] ''docker-run'' (Some (debugNode dc)) = Some (Some b)"
    using h fb rb by (subst recursiveFindTaskByType.simps) (simp add: debugNode_def truthy_def)
  then show "getAssociatedDockerRunTask \<lparr>tasks = Some [a, b]\<rparr> dc = Some (Some b)"
    by (simp add: getAssociatedDockerRunTask_def storedTasks_def)
  have "recursiveFindTaskByType [a, b] ''docker-build'' (Some b) = Some (Some a)"
    using h fa ra by (subst recursiveFindTaskByType.simps) simp
  then show "getAssociatedDockerBuildTask \<lparr>tasks = Some [a, b]\<rparr> lb = Some (Some a)"
    using fb by (simp add: getAssociatedDockerBuildTask_def storedTasks_def)
qed

theorem recursiveFindTaskByType_order_witness:
  "getAssociatedDockerRunTask \<lparr>tasks = Some chainTasks\<rparr> (debugConfig ''B'') = Some (Some (chainTasks ! 1))
   \<and> getAssociatedDockerBuildTask \<lparr>tasks = Some chainTasks\<rparr> ''B'' = Some (Some (chainTasks ! 0))
   \<and> recursiveFindTaskByType chainTasks ''docker-build'' (Some (debugNode (debugConfig ''B''))) =
       recursiveFindTaskByType chainTasks ''docker-build'' (Some (chainTasks ! 1))
   \<and> recursiveFindTaskByType chainTasks ''docker-build'' (Some (chainTasks ! 0)) = Some (Some (chainTasks ! 0))
   \<and> recursiveFindTaskByType chainTasks ''docker-build'' (Some (chainTasks ! 1)) = Some (Some (chainTasks ! 0))"
proof -
  let ?a = "chainTasks ! 0" and ?b = "chainTasks ! 1"
  have ex: "getAssociatedDockerRunTask \<lparr>tasks = Some chainTasks\<rparr> (debugConfig ''B'') = Some (Some ?b)
     \<and> getAssociatedDockerBuildTask \<lparr>tasks = Some chainTasks\<rparr> ''B'' = Some (Some ?a)"
    using recursiveFindTaskByType_order [of ?a "[]" "''x''" "[]" 0 undefined
        ?a "''A''" ?b "''B''" "debugConfig ''B''"]
    by (simp add: chainTasks_def mkTask_def truthy_def debugConfig_def)
  have pre: "recursiveFindTaskByType chainTasks ''docker-build'' (Some (debugNode (debugConfig ''B''))) =
       recursiveFindTaskByType chainTasks ''docker-build'' (Some ?b)"
    using recursiveFindTaskByType_order [of "debugNode (debugConfig ''B'')" chainTasks "''docker-build''"]
    by (simp add: chainTasks_def mkTask_def truthy_def debugConfig_def debugNode_def findTaskByLabel_def)
  have own: "recursiveFindTaskByType chainTasks ''docker-build'' (Some ?a) = Some (Some ?a)"
    using recursiveFindTaskByType_order [of ?a chainTasks "''docker-build''"]
    by (simp add: chainTasks_def mkTask_def truthy_def)
  have dep: "recursiveFindTaskByType chainTasks ''docker-build'' (Some ?b) = Some (Some ?a)"
    using recursiveFindTaskByType_order [of ?b chainTasks "''docker-build''" "[''A'']" 0 ?a] own
    by (simp add: chainTasks_def mkTask_def truthy_def findTaskByLabel_def)
  from ex pre own dep show ?thesis by simp
qed

section \<open>Properties of the debug session lifecycle\<close>

lemma resolveDebugConfiguration_helperResult:
  "resolveDebugConfiguration nc nd folder dc h =
     (case helperResult nc nd folder dc of
        Inl e \<Rightarrow> Inl e
      | Inr result \<Rightarrow> Inr (registerRemoveContainerAfterDebugging result h))"
  by (simp add: resolveDebugConfiguration_def resolveDebugConfigurationInternal_def
      helperResult_def)

lemma registered_flag_defined:
  assumes "registerRemoveContainerAfterDebugging result h = (Some res, h')"
    and "truthy (containerNameToKill res)"
  shows "removeContainerAfterDebug res \<noteq> None"
proof (cases result)
  case None
  with assms show ?thesis
    by (simp add: registerRemoveContainerAfterDebugging_def)
next
  case (Some c)
  show ?thesis
  proof (cases "removeContainerAfterDebug c")
    case None
    with Some assms show ?thesis
      by (auto simp: registerRemoveContainerAfterDebugging_def Let_def split: if_splits)
  next
    case (Some b)
    with \<open>result = Some c\<close> assms show ?thesis
      by (auto simp: registerRemoveContainerAfterDebugging_def Let_def split: if_splits)
  qed
qed

text \<open>
  C10. When the helper of the platform resolves the configuration to \<open>r\<close>, with a
  non-empty \<^verbatim>\<open>_containerNameToKill\<close> and \<^verbatim>\<open>removeContainerAfterDebug\<close> undefined,
  \<open>resolveDebugConfiguration\<close> succeeds and returns \<open>r\<close> with \<^verbatim>\<open>removeContainerAfterDebug\<close>
  set to true. More generally, no configuration that \<open>resolveDebugConfiguration\<close> returns
  has a non-empty \<^verbatim>\<open>_containerNameToKill\<close> and \<^verbatim>\<open>removeContainerAfterDebug\<close> undefined.
\<close>

theorem resolveDebugConfiguration_materializes_default:
  "(helperResult nc nd folder dc = Inr (Some r) \<and> truthy (containerNameToKill r)
      \<and> removeContainerAfterDebug r = None \<longrightarrow>
      (\<exists>h'. resolveDebugConfiguration nc nd folder dc h =
              Inr (Some (r\<lparr>removeContainerAfterDebug := Some True\<rparr>), h')))
   \<and> (resolveDebugConfiguration nc nd folder dc h = Inr (Some res, h')
      \<and> truthy (containerNameToKill res) \<longrightarrow>
      removeContainerAfterDebug res \<noteq> None)"
proof (intro conjI impI)
  assume "helperResult nc nd folder dc = Inr (Some r) \<and> truthy (containerNameToKill r)
      \<and> removeContainerAfterDebug r = None"
  then show "\<exists>h'. resolveDebugConfiguration nc nd folder dc h =
              Inr (Some (r\<lparr>removeContainerAfterDebug := Some True\<rparr>), h')"
    by (simp add: resolveDebugConfiguration_helperResult
        registerRemoveContainerAfterDebugging_def Let_def)
next
  assume h: "resolveDebugConfiguration nc nd folder dc h = Inr (Some res, h')
      \<and> truthy (containerNameToKill res)"
  then obtain result where "registerRemoveContainerAfterDebugging result h = (Some res, h')"
    by (auto simp: resolveDebugConfiguration_helperResult split: sum.splits)
  with h show "removeContainerAfterDebug res \<noteq> None"
    using registered_flag_defined by blast
qed

theorem resolveDebugConfiguration_materializes_default_witness:
  "(\<exists>h'. resolveDebugConfiguration (helperReturning (killConfig None (Some ''c1'')))
            (helperReturning (killConfig None (Some ''c1''))) None (killConfig None None) emptyHost =
          Inr (Some (killConfig (Some True) (Some ''c1'')), h'))
   \<and> removeContainerAfterDebug (killConfig (Some True) (Some ''c1'')) \<noteq> None"
proof -
  let ?hp = "helperReturning (killConfig None (Some ''c1''))"
  have pre: "helperResult ?hp ?hp None (killConfig None None) = Inr (Some (killConfig None (Some ''c1'')))
      \<and> truthy (containerNameToKill (killConfig None (Some ''c1'')))
      \<and> removeContainerAfterDebug (killConfig None (Some ''c1'')) = None"
    by (simp add: helperResult_def helperReturning_def killConfig_def determineDebugPlatform_def
        truthy_def)
  from resolveDebugConfiguration_materializes_default
    [of ?hp ?hp None "killConfig None None" "killConfig None (Some ''c1'')" emptyHost] pre
  obtain h' where r: "resolveDebugConfiguration ?hp ?hp None (killConfig None None) emptyHost =
      Inr (Some ((killConfig None (Some ''c1''))\<lparr>removeContainerAfterDebug := Some True\<rparr>), h')"
    by blast
  have "truthy (containerNameToKill (killConfig (Some True) (Some ''c1'')))"
    by (simp add: killConfig_def truthy_def)
  with r resolveDebugConfiguration_materializes_default
    [of ?hp ?hp None "killConfig None None" _ emptyHost "killConfig (Some True) (Some ''c1'')" h']
  show ?thesis
    by (auto simp: killConfig_def)
qed

lemma fold_listenerCallback:
  "fold (\<lambda>l. listenerCallback l session) ls h =
     h\<lparr>removeCalls := removeCalls h @
          map (\<lambda>x. (the (containerNameToKill (watching x)), True))
            (filter (\<lambda>x. truthyBool (removeContainerAfterDebug (configuration session))
                 \<and> truthy (containerNameToKill (configuration session))
                 \<and> containerNameToKill (configuration session) = containerNameToKill (watching x)) ls),
       pendingRemovals := pendingRemovals h @
          map lid
            (filter (\<lambda>x. truthyBool (removeContainerAfterDebug (configuration session))
                 \<and> truthy (containerNameToKill (configuration session))
                 \<and> containerNameToKill (configuration session) = containerNameToKill (watching x)) ls)\<rparr>"
proof -
  define m :: "listener \<Rightarrow> bool" where "m = (\<lambda>x. truthyBool (removeContainerAfterDebug (configuration session))
                 \<and> truthy (containerNameToKill (configuration session))
                 \<and> containerNameToKill (configuration session) = containerNameToKill (watching x))"
  have cb: "listenerCallback x session g =
      (if m x then g\<lparr>removeCalls := removeCalls g @ [(the (containerNameToKill (watching x)), True)],
                     pendingRemovals := pendingRemovals g @ [lid x]\<rparr>
       else g)" for x g
    unfolding m_def by (auto simp: listenerCallback_def Let_def)
  have "fold (\<lambda>l. listenerCallback l session) ls h =
     h\<lparr>removeCalls := removeCalls h @
          map (\<lambda>x. (the (containerNameToKill (watching x)), True)) (filter m ls),
       pendingRemovals := pendingRemovals h @ map lid (filter m ls)\<rparr>"
  proof (induction ls arbitrary: h)
    case Nil
    show ?case by simp
  next
    case (Cons l ls)
    have "fold (\<lambda>l. listenerCallback l session) (l # ls) h =
        fold (\<lambda>l. listenerCallback l session) ls (listenerCallback l session h)"
      by simp
    also note Cons.IH [of "listenerCallback l session h"]
    finally show ?case
      by (cases "m l") (simp_all add: cb [of l h])
  qed
  then show ?thesis
    unfolding m_def .
qed

text \<open>
  C3, as the code has it. When the helper resolves the configuration to \<open>r\<close> with a
  non-empty \<^verbatim>\<open>_containerNameToKill\<close> and \<^verbatim>\<open>removeContainerAfterDebug\<close> true or unset,
  \<open>resolveDebugConfiguration\<close> registers exactly one termination listener, which watches
  \<open>r\<close>. The listener does nothing and stays registered on an event whose container name
  is not the watched one, and also on an event whose configuration does not have
  \<^verbatim>\<open>removeContainerAfterDebug\<close> true. On an event with \<^verbatim>\<open>removeContainerAfterDebug\<close> true and
  the watched, non-empty container name it makes one forced \<^verbatim>\<open>removeContainer\<close> call and
  stays registered while that removal is pending. When the removal settles, whether it
  succeeded or failed, the listener is unregistered and the other listeners stay. A
  terminated session makes one call for each listener that is registered at that moment
  and passes the test: a listener handles every matching event that arrives before its
  removal has settled, and no event that arrives after.
\<close>

theorem termination_listener_lifecycle:
  "(helperResult nc nd folder dc = Inr (Some r) \<and> truthy (containerNameToKill r)
      \<and> (removeContainerAfterDebug r = None \<or> removeContainerAfterDebug r = Some True) \<longrightarrow>
      resolveDebugConfiguration nc nd folder dc h =
        Inr (Some (r\<lparr>removeContainerAfterDebug := Some True\<rparr>),
             h\<lparr>listeners := listeners h @
                   [\<lparr>lid = nextId h, watching = r\<lparr>removeContainerAfterDebug := Some True\<rparr>\<rparr>],
               nextId := nextId h + 1\<rparr>))
   \<and> (containerNameToKill (configuration session) \<noteq> containerNameToKill (watching l) \<longrightarrow>
      listenerCallback l session h = h)
   \<and> (\<not> truthyBool (removeContainerAfterDebug (configuration session)) \<longrightarrow>
      listenerCallback l session h = h)
   \<and> (truthyBool (removeContainerAfterDebug (configuration session))
      \<and> truthy (containerNameToKill (watching l))
      \<and> containerNameToKill (configuration session) = containerNameToKill (watching l) \<longrightarrow>
      listenerCallback l session h =
        h\<lparr>removeCalls := removeCalls h @ [(the (containerNameToKill (watching l)), True)],
          pendingRemovals := pendingRemovals h @ [lid l]\<rparr>)
   \<and> (lid l \<in> set (pendingRemovals h) \<longrightarrow>
      removalSettled succeeded (lid l) h =
        h\<lparr>pendingRemovals := remove1 (lid l) (pendingRemovals h),
          listeners := filter (\<lambda>x. lid x \<noteq> lid l) (listeners h)\<rparr>
      \<and> (\<forall>x\<in>set (listeners (removalSettled succeeded (lid l) h)). lid x \<noteq> lid l))
   \<and> terminateSession session h =
       h\<lparr>removeCalls := removeCalls h @
            map (\<lambda>x. (the (containerNameToKill (watching x)), True))
              (filter (\<lambda>x. truthyBool (removeContainerAfterDebug (configuration session))
                   \<and> truthy (containerNameToKill (configuration session))
                   \<and> containerNameToKill (configuration session) = containerNameToKill (watching x))
                 (listeners h)),
         pendingRemovals := pendingRemovals h @
            map lid
              (filter (\<lambda>x. truthyBool (removeContainerAfterDebug (configuration session))
                   \<and> truthy (containerNameToKill (configuration session))
                   \<and> containerNameToKill (configuration session) = containerNameToKill (watching x))
                 (listeners h))\<rparr>"
proof (intro conjI impI)
  assume "helperResult nc nd folder dc = Inr (Some r) \<and> truthy (containerNameToKill r)
      \<and> (removeContainerAfterDebug r = None \<or> removeContainerAfterDebug r = Some True)"
  then show "resolveDebugConfiguration nc nd folder dc h =
        Inr (Some (r\<lparr>removeContainerAfterDebug := Some True\<rparr>),
             h\<lparr>listeners := listeners h @
                   [\<lparr>lid = nextId h, watching = r\<lparr>removeContainerAfterDebug := Some True\<rparr>\<rparr>],
               nextId := nextId h + 1\<rparr>)"
    by (auto simp: resolveDebugConfiguration_helperResult registerRemoveContainerAfterDebugging_def
        Let_def onDidTerminateDebugSession_def truthyBool_def)
next
  assume "containerNameToKill (configuration session) \<noteq> containerNameToKill (watching l)"
  then show "listenerCallback l session h = h"
    by (simp add: listenerCallback_def)
next
  assume "\<not> truthyBool (removeContainerAfterDebug (configuration session))"
  then show "listenerCallback l session h = h"
    by (simp add: listenerCallback_def)
next
  assume "truthyBool (removeContainerAfterDebug (configuration session))
      \<and> truthy (containerNameToKill (watching l))
      \<and> containerNameToKill (configuration session) = containerNameToKill (watching l)"
  then show "listenerCallback l session h =
        h\<lparr>removeCalls := removeCalls h @ [(the (containerNameToKill (watching l)), True)],
          pendingRemovals := pendingRemovals h @ [lid l]\<rparr>"
    by (simp add: listenerCallback_def Let_def)
next
  assume p: "lid l \<in> set (pendingRemovals h)"
  then show eq: "removalSettled succeeded (lid l) h =
        h\<lparr>pendingRemovals := remove1 (lid l) (pendingRemovals h),
          listeners := filter (\<lambda>x. lid x \<noteq> lid l) (listeners h)\<rparr>"
    by (simp add: removalSettled_def Let_def dispose_def)
  show "\<forall>x\<in>set (listeners (removalSettled succeeded (lid l) h)). lid x \<noteq> lid l"
    unfolding eq by simp
next
  show "terminateSession session h =
       h\<lparr>removeCalls := removeCalls h @
            map (\<lambda>x. (the (containerNameToKill (watching x)), True))
              (filter (\<lambda>x. truthyBool (removeContainerAfterDebug (configuration session))
                   \<and> truthy (containerNameToKill (configuration session))
                   \<and> containerNameToKill (configuration session) = containerNameToKill (watching x))
                 (listeners h)),
         pendingRemovals := pendingRemovals h @
            map lid
              (filter (\<lambda>x. truthyBool (removeContainerAfterDebug (configuration session))
                   \<and> truthy (containerNameToKill (configuration session))
                   \<and> containerNameToKill (configuration session) = containerNameToKill (watching x))
                 (listeners h))\<rparr>"
    unfolding terminateSession_def by (rule fold_listenerCallback)
qed

theorem termination_listener_lifecycle_witness:
  "resolveDebugConfiguration (helperReturning (killConfig None (Some ''c1'')))
      (helperReturning (killConfig None (Some ''c1''))) None (killConfig None None) emptyHost =
     Inr (Some (killConfig (Some True) (Some ''c1'')),
          \<lparr>listeners = [\<lparr>lid = 0, watching = killConfig (Some True) (Some ''c1'')\<rparr>],
           nextId = 1, removeCalls = [], pendingRemovals = []\<rparr>)
   \<and> terminateSession (sessionOf (Some True) (Some ''c1'')) twoSessionsHost =
     twoSessionsHost\<lparr>removeCalls := [(''c1'', True)], pendingRemovals := [0]\<rparr>
   \<and> removalSettled False 0
       (twoSessionsHost\<lparr>removeCalls := [(''c1'', True)], pendingRemovals := [0]\<rparr>) =
     \<lparr>listeners = [\<lparr>lid = 1, watching = killConfig (Some True) (Some ''c2'')\<rparr>],
      nextId = 2, removeCalls = [(''c1'', True)], pendingRemovals = []\<rparr>
   \<and> terminateSession (sessionOf (Some True) (Some ''c1''))
       \<lparr>listeners = [\<lparr>lid = 1, watching = killConfig (Some True) (Some ''c2'')\<rparr>],
        nextId = 2, removeCalls = [(''c1'', True)], pendingRemovals = []\<rparr> =
     \<lparr>listeners = [\<lparr>lid = 1, watching = killConfig (Some True) (Some ''c2'')\<rparr>],
      nextId = 2, removeCalls = [(''c1'', True)], pendingRemovals = []\<rparr>"
proof -
  let ?hp = "helperReturning (killConfig None (Some ''c1''))"
  let ?s = "sessionOf (Some True) (Some ''c1'')"
  let ?l0 = "\<lparr>lid = 0, watching = killConfig (Some True) (Some ''c1'')\<rparr>"
  let ?l1 = "\<lparr>lid = 1, watching = killConfig (Some True) (Some ''c2'')\<rparr>"
  let ?h1 = "twoSessionsHost\<lparr>removeCalls := [(''c1'', True)], pendingRemovals := [0]\<rparr>"
  let ?h2 = "\<lparr>listeners = [?l1], nextId = 2, removeCalls = [(''c1'', True)], pendingRemovals = []\<rparr>"
  have reg: "resolveDebugConfiguration ?hp ?hp None (killConfig None None) emptyHost =
     Inr (Some (killConfig (Some True) (Some ''c1'')),
          \<lparr>listeners = [?l0], nextId = 1, removeCalls = [], pendingRemovals = []\<rparr>)"
    using termination_listener_lifecycle
      [where nc = ?hp and nd = ?hp and folder = None and dc = "killConfig None None"
         and r = "killConfig None (Some ''c1'')" and h = emptyHost]
    by (simp add: helperResult_def helperReturning_def killConfig_def determineDebugPlatform_def
        truthy_def emptyHost_def)
  have first: "terminateSession ?s twoSessionsHost = ?h1"
    using termination_listener_lifecycle [where session = ?s and h = twoSessionsHost]
    by (simp add: sessionOf_def killConfig_def truthy_def truthyBool_def twoSessionsHost_def)
  have settle: "removalSettled False 0 ?h1 = ?h2"
    using termination_listener_lifecycle [where l = ?l0 and h = ?h1 and succeeded = False]
    by (simp add: twoSessionsHost_def)
  have after: "terminateSession ?s ?h2 = ?h2"
    using termination_listener_lifecycle [where session = ?s and h = ?h2]
    by (simp add: sessionOf_def killConfig_def truthy_def truthyBool_def)
  from reg first settle after show ?thesis by simp
qed

text \<open>
  An event with the watched container name is not always acted on: when the configuration
  of the terminated session has \<^verbatim>\<open>removeContainerAfterDebug\<close> false, the listener makes no
  \<^verbatim>\<open>removeContainer\<close> call and stays registered. And a listener may handle more than one
  event: two events of the watched container that arrive before the first removal has
  settled give two \<^verbatim>\<open>removeContainer\<close> calls.
\<close>

theorem termination_listener_counterexample:
  "containerNameToKill (configuration (sessionOf (Some False) (Some ''c1''))) =
     containerNameToKill (watching (listeners twoSessionsHost ! 0))
   \<and> listenerCallback (listeners twoSessionsHost ! 0)
       (sessionOf (Some False) (Some ''c1'')) twoSessionsHost = twoSessionsHost
   \<and> terminateSession (sessionOf (Some False) (Some ''c1'')) twoSessionsHost = twoSessionsHost
   \<and> removeCalls (terminateSession (sessionOf (Some True) (Some ''c1''))
         (terminateSession (sessionOf (Some True) (Some ''c1'')) twoSessionsHost)) =
     [(''c1'', True), (''c1'', True)]
   \<and> listeners (terminateSession (sessionOf (Some True) (Some ''c1'')) twoSessionsHost) =
     listeners twoSessionsHost"
  by (simp add: terminateSession_def listenerCallback_def sessionOf_def killConfig_def
      twoSessionsHost_def truthyBool_def truthy_def Let_def)

section \<open>Properties of the command line of a run task\<close>

lemma withNamedArg_prefix: "withNamedArg s n v (a @ c) = a @ withNamedArg s n v c"
  by (simp add: withNamedArg_def)

lemma withKeyValueArgs_prefix: "withKeyValueArgs s f m (a @ c) = a @ withKeyValueArgs s f m c"
  by (simp add: withKeyValueArgs_def split: option.splits)

lemma withArrayArgs_prefix: "withArrayArgs s f xs fmt (a @ c) = a @ withArrayArgs s f xs fmt c"
  by (simp add: withArrayArgs_def split: option.splits)

lemma withQuotedArg_prefix: "withQuotedArg s v (a @ c) = a @ withQuotedArg s v c"
  by (simp add: withQuotedArg_def)

lemma withArgs_prefix: "withArgs s v (a @ c) = a @ withArgs s v c"
  by (simp add: withArgs_def split: option.splits command.splits)

lemmas builder_prefix =
  withNamedArg_prefix withKeyValueArgs_prefix withArrayArgs_prefix withQuotedArg_prefix
  withArgs_prefix

text \<open>
  C4, as the code has it. The command line of a run task is \<^verbatim>\<open>docker run -dt\<close>, then \<^verbatim>\<open>-P\<close>
  exactly when \<^verbatim>\<open>portsPublishAll\<close> is true, or \<^verbatim>\<open>portsPublishAll\<close> is absent and \<^verbatim>\<open>ports\<close> is
  absent or empty, then the tokens that follow \<^verbatim>\<open>docker run -dt\<close> in the command line of
  the same options with \<^verbatim>\<open>portsPublishAll\<close> false; and with \<^verbatim>\<open>portsPublishAll\<close> false the
  command line starts with \<^verbatim>\<open>docker run -dt\<close> and has no \<^verbatim>\<open>-P\<close> inserted.
\<close>

theorem resolveCommandLine_publish_all:
  "resolveCommandLine special ro =
     create special [''docker'', ''run'', ''-dt'']
     @ (if portsPublishAll ro = Some True
           \<or> (portsPublishAll ro = None \<and> (ports ro = None \<or> ports ro = Some []))
        then [token special ''-P''] else [])
     @ drop 3 (resolveCommandLine special (ro\<lparr>portsPublishAll := Some False\<rparr>))
   \<and> take 3 (resolveCommandLine special (ro\<lparr>portsPublishAll := Some False\<rparr>)) =
     create special [''docker'', ''run'', ''-dt'']"
proof -
  define rest :: "DockerRunOptions \<Rightarrow> CommandLineBuilder \<Rightarrow> CommandLineBuilder" where
    "rest = (\<lambda>runOptions b0.
       (let b = withNamedArg special ''--name'' (containerName runOptions) b0;
            b = withNamedArg special ''--network'' (network runOptions) b;
            b = withNamedArg special ''--network-alias'' (networkAlias runOptions) b;
            b = withKeyValueArgs special ''-e'' (env runOptions) b;
            b = withArrayArgs special ''--env-file'' (envFiles runOptions) (\<lambda>f. f) b;
            b = withKeyValueArgs special ''--label'' (runLabels runOptions) b;
            b = withArrayArgs special ''-v'' (volumes runOptions) formatVolume b;
            b = withArrayArgs special ''-p'' (ports runOptions) formatPort b;
            b = withArrayArgs special ''--add-host'' (extraHosts runOptions) formatExtraHost b;
            b = withNamedArg special ''--entrypoint'' (entrypoint runOptions) b;
            b = withQuotedArg special (image runOptions) b;
            b = withArgs special (command runOptions) b
        in b))"
  let ?base = "create special [''docker'', ''run'', ''-dt'']"
  let ?off = "ro\<lparr>portsPublishAll := Some False\<rparr>"
  have unfold: "resolveCommandLine special r =
      rest r (withFlagArg special ''-P'' (publishAllPorts r) ?base)" for r
    by (simp add: resolveCommandLine_def rest_def Let_def buildShellQuotedStrings_def)
  have prefix: "rest r (a @ c) = a @ rest r c" for r a c
    by (simp add: rest_def Let_def builder_prefix)
  have prefix': "rest r a = a @ rest r []" for r a
    using prefix [of r a "[]"] by simp
  have same: "rest ?off b = rest ro b" for b
    by (simp add: rest_def)
  have off: "\<not> publishAllPorts ?off"
    by (simp add: publishAllPorts_def truthyBool_def)
  have len: "length ?base = 3"
    by (simp add: create_def)
  have base: "resolveCommandLine special ?off = ?base @ rest ro []"
    using prefix' [of ro ?base] by (simp add: unfold off same withFlagArg_def)
  have flag: "withFlagArg special ''-P'' (publishAllPorts ro) ?base =
      ?base @ (if portsPublishAll ro = Some True
           \<or> (portsPublishAll ro = None \<and> (ports ro = None \<or> ports ro = Some []))
        then [token special ''-P''] else [])"
    by (auto simp: withFlagArg_def publishAllPorts_def truthyBool_def split: option.splits)
  have "resolveCommandLine special ro =
      (?base @ (if portsPublishAll ro = Some True
           \<or> (portsPublishAll ro = None \<and> (ports ro = None \<or> ports ro = Some []))
        then [token special ''-P''] else [])) @ rest ro []"
    unfolding unfold flag by (rule prefix')
  moreover have "drop 3 (resolveCommandLine special ?off) = rest ro []"
    unfolding base using len by simp
  moreover have "take 3 (resolveCommandLine special ?off) = ?base"
    unfolding base using len by simp
  ultimately show ?thesis by simp
qed

lemma formatPort_web:
  "formatPort \<lparr>hostPort = Some 8080, containerPort = 80, protocol = Some Tcp\<rparr> = ''8080:80/tcp''"
  by (simp add: formatPort_def digitChar_def)

theorem resolveCommandLine_publish_all_witness:
  "map value (resolveCommandLine isSpace (webRunOptions (Some True))) =
     [''docker'', ''run'', ''-dt'', ''-P'', ''-p'', ''8080:80/tcp'', ''web:dev'']
   \<and> map value (resolveCommandLine isSpace (webRunOptions None)) =
     [''docker'', ''run'', ''-dt'', ''-p'', ''8080:80/tcp'', ''web:dev'']"
proof -
  have off: "(webRunOptions (Some True))\<lparr>portsPublishAll := Some False\<rparr> = webRunOptions (Some False)"
    "(webRunOptions None)\<lparr>portsPublishAll := Some False\<rparr> = webRunOptions (Some False)"
    by (simp_all add: webRunOptions_def)
  have base: "map value (resolveCommandLine isSpace (webRunOptions (Some False))) =
      [''docker'', ''run'', ''-dt'', ''-p'', ''8080:80/tcp'', ''web:dev'']"
    by (simp add: resolveCommandLine_def webRunOptions_def emptyRunOptions_def Let_def create_def
        withFlagArg_def publishAllPorts_def truthyBool_def withNamedArg_def withKeyValueArgs_def
        withArrayArgs_def withQuotedArg_def withArgs_def buildShellQuotedStrings_def truthy_def
        token_def formatPort_web)
  then have rest: "map value (drop 3 (resolveCommandLine isSpace (webRunOptions (Some False)))) =
      [''-p'', ''8080:80/tcp'', ''web:dev'']"
    by (simp add: drop_map [symmetric])
  have a: "map value (resolveCommandLine isSpace (webRunOptions (Some True))) =
      [''docker'', ''run'', ''-dt'', ''-P'', ''-p'', ''8080:80/tcp'', ''web:dev'']"
    using resolveCommandLine_publish_all [of isSpace "webRunOptions (Some True)"] rest
    by (simp add: off) (simp add: webRunOptions_def create_def token_def)
  have b: "map value (resolveCommandLine isSpace (webRunOptions None)) =
      [''docker'', ''run'', ''-dt'', ''-p'', ''8080:80/tcp'', ''web:dev'']"
    using resolveCommandLine_publish_all [of isSpace "webRunOptions None"] rest
    by (simp add: off) (simp add: webRunOptions_def create_def token_def)
  from a b show ?thesis by simp
qed

text \<open>
  With \<^verbatim>\<open>portsPublishAll\<close> absent from the run options (and no \<^verbatim>\<open>ports\<close>), \<^verbatim>\<open>-P\<close> is
  emitted all the same.
\<close>

theorem resolveCommandLine_absent_counterexample:
  "portsPublishAll emptyRunOptions = None
   \<and> map value (resolveCommandLine isSpace emptyRunOptions) = [''docker'', ''run'', ''-dt'', ''-P'']"
  by (simp add: resolveCommandLine_def emptyRunOptions_def Let_def create_def withFlagArg_def
      publishAllPorts_def truthyBool_def withNamedArg_def withKeyValueArgs_def withArrayArgs_def
      withQuotedArg_def withArgs_def buildShellQuotedStrings_def truthy_def token_def)

section \<open>Properties of task resolution\<close>

lemma closedRegion_iff:
  "closedRegion b st \<longleftrightarrow>
     (\<forall>a. b \<le> a \<and> a < length st \<longrightarrow> (\<forall>(k, v)\<in>set (st ! a). inRegion b st v))"
proof -
  have "closedRegion b st \<longleftrightarrow> (\<forall>ob\<in>set (drop b st). \<forall>(k, v)\<in>set ob. inRegion b st v)"
    by (simp add: closedRegion_def list_all_iff)
  also have "\<dots> \<longleftrightarrow> (\<forall>i<length st - b. \<forall>(k, v)\<in>set (st ! (b + i)). inRegion b st v)"
    by (subst all_set_conv_all_nth) simp
  also have "\<dots> \<longleftrightarrow> (\<forall>a. b \<le> a \<and> a < length st \<longrightarrow> (\<forall>(k, v)\<in>set (st ! a). inRegion b st v))"
  proof (intro iffI allI impI)
    fix a assume h: "\<forall>i<length st - b. \<forall>(k, v)\<in>set (st ! (b + i)). inRegion b st v"
      and a: "b \<le> a \<and> a < length st"
    then have "a - b < length st - b" by arith
    with h have "\<forall>(k, v)\<in>set (st ! (b + (a - b))). inRegion b st v" by blast
    with a show "\<forall>(k, v)\<in>set (st ! a). inRegion b st v" by simp
  next
    fix i assume h: "\<forall>a. b \<le> a \<and> a < length st \<longrightarrow> (\<forall>(k, v)\<in>set (st ! a). inRegion b st v)"
      and "i < length st - b"
    then have "b \<le> b + i \<and> b + i < length st" by arith
    with h show "\<forall>(k, v)\<in>set (st ! (b + i)). inRegion b st v"
      by blast
  qed
  finally show ?thesis .
qed

lemma inRegion_append: "inRegion b st v \<Longrightarrow> inRegion b (st @ new) v"
  by (auto simp: inRegion_def split: jsval.splits)

lemma closedRegion_append_cell:
  assumes "closedRegion b st" and "b \<le> length st"
    and "\<forall>(k, v)\<in>set ob. inRegion b (st @ [ob]) v"
  shows "closedRegion b (st @ [ob])"
  unfolding closedRegion_iff
proof (intro allI impI)
  fix a assume a: "b \<le> a \<and> a < length (st @ [ob])"
  show "\<forall>(k, v)\<in>set ((st @ [ob]) ! a). inRegion b (st @ [ob]) v"
  proof (cases "a < length st")
    case True
    with a assms(1) have "\<forall>(k, v)\<in>set (st ! a). inRegion b st v"
      unfolding closedRegion_iff by blast
    with True show ?thesis
      by (auto simp: nth_append dest: inRegion_append)
  next
    case False
    with a have "a = length st" by simp
    with assms(3) show ?thesis by simp
  qed
qed

lemma allocate_region:
  "allocate st t = (st', v) \<Longrightarrow> b \<le> length st \<Longrightarrow> closedRegion b st \<Longrightarrow>
     (\<exists>new. st' = st @ new) \<and> closedRegion b st' \<and> inRegion b st' v"
  and allocateProperties_region:
  "allocateProperties st ts = (st', ps) \<Longrightarrow> b \<le> length st \<Longrightarrow> closedRegion b st \<Longrightarrow>
     (\<exists>new. st' = st @ new) \<and> closedRegion b st' \<and> (\<forall>(k, v)\<in>set ps. inRegion b st' v)"
proof (induction st t and st ts arbitrary: st' v and st' ps rule: allocate_allocateProperties.induct)
  case (1 st p)
  then show ?case by (auto simp: inRegion_def)
next
  case (2 st ts)
  obtain st1 ps where ap: "allocateProperties st ts = (st1, ps)" by force
  from "2.IH" [OF ap "2.prems"(2,3)] obtain new where
    1: "st1 = st @ new" "closedRegion b st1" "\<forall>(k, v)\<in>set ps. inRegion b st1 v"
    by blast
  from "2.prems"(1) ap have r: "st' = st1 @ [ps]" "v = Ref (length st1)" by auto
  have b1: "b \<le> length st1" using 1(1) "2.prems"(2) by simp
  have "\<forall>(k, v)\<in>set ps. inRegion b (st1 @ [ps]) v"
    using 1(3) by (auto dest: inRegion_append)
  with 1(2) b1 have "closedRegion b (st1 @ [ps])"
    by (rule closedRegion_append_cell)
  moreover have "inRegion b (st1 @ [ps]) (Ref (length st1))"
    using b1 by (simp add: inRegion_def)
  ultimately show ?case using r 1(1) by simp
next
  case (3 st)
  then show ?case by auto
next
  case (4 st k t ts)
  obtain st1 w where a: "allocate st t = (st1, w)" by force
  obtain st2 qs where ap: "allocateProperties st1 ts = (st2, qs)" by force
  from "4.IH"(1) [OF a "4.prems"(2,3)] obtain new1 where
    1: "st1 = st @ new1" "closedRegion b st1" "inRegion b st1 w"
    by blast
  have b1: "b \<le> length st1" using 1(1) "4.prems"(2) by simp
  from "4.IH"(2) [OF a [symmetric] refl ap b1 1(2)] obtain new2 where
    2: "st2 = st1 @ new2" "closedRegion b st2" "\<forall>(k, v)\<in>set qs. inRegion b st2 v"
    by blast
  from "4.prems"(1) a ap have r: "st' = st2" "ps = (k, w) # qs" by auto
  have "inRegion b st2 w" using 1(3) 2(1) by (auto dest: inRegion_append)
  with 1(1) 2 r show ?case by auto
qed

lemma keepsBelow_refl: "keepsBelow b st st"
  by (simp add: keepsBelow_def)

lemma keepsBelow_trans: "keepsBelow b st st1 \<Longrightarrow> keepsBelow b st1 st2 \<Longrightarrow> keepsBelow b st st2"
  by (simp add: keepsBelow_def)

lemma keepsBelow_append: "b \<le> length st \<Longrightarrow> keepsBelow b st (st @ new)"
  by (simp add: keepsBelow_def)

lemma keepsBelow_update: "b \<le> a \<Longrightarrow> keepsBelow b st (st[a := ob])"
  by (simp add: keepsBelow_def)

lemma keepsBelow_setField: "inRegion b st v \<Longrightarrow> keepsBelow b st (setField st v f w)"
  by (auto simp: setField_def inRegion_def keepsBelow_update keepsBelow_refl split: jsval.splits)

lemma keepsBelow_setField_any: "inRegion b st0 v \<Longrightarrow> keepsBelow b st (setField st v f w)"
  by (auto simp: setField_def inRegion_def keepsBelow_update keepsBelow_refl split: jsval.splits)

lemma length_setField [simp]: "length (setField st v f w) = length st"
  by (simp add: setField_def split: jsval.splits)

lemma inRegion_length: "length st = length st' \<Longrightarrow> inRegion b st v \<Longrightarrow> inRegion b st' v"
  by (auto simp: inRegion_def split: jsval.splits)

lemma set_putProperty: "set (putProperty f w ps) \<subseteq> insert (f, w) (set ps)"
  by (induction ps) (auto split: if_splits)

lemma closedRegion_setField:
  assumes "closedRegion b st" and "inRegion b st w"
  shows "closedRegion b (setField st v f w)"
proof (cases v)
  case (Prim p)
  with assms show ?thesis by (simp add: setField_def)
next
  case (Ref a)
  show ?thesis
  proof (cases "a < length st")
    case False
    with Ref assms show ?thesis by (simp add: setField_def)
  next
    case True
    let ?st' = "st[a := putProperty f w (st ! a)]"
    have reg: "inRegion b st x \<Longrightarrow> inRegion b ?st' x" for x
      by (rule inRegion_length) simp_all
    have "closedRegion b ?st'"
      unfolding closedRegion_iff
    proof (intro allI impI)
      fix c assume c: "b \<le> c \<and> c < length ?st'"
      then have old: "\<forall>(k, x)\<in>set (st ! c). inRegion b st x"
        using assms(1) unfolding closedRegion_iff by simp
      show "\<forall>(k, x)\<in>set (?st' ! c). inRegion b ?st' x"
      proof (cases "c = a")
        case True
        with c have "set (?st' ! c) \<subseteq> insert (f, w) (set (st ! c))"
          using set_putProperty by simp
        with old assms(2) show ?thesis
          by (auto intro: reg)
      next
        case False
        with old show ?thesis by (auto intro: reg)
      qed
    qed
    with Ref True show ?thesis by (simp add: setField_def)
  qed
qed

lemma map_of_in_set: "map_of ps f = Some x \<Longrightarrow> (f, x) \<in> set ps"
  by (rule map_of_SomeD)

lemma inRegion_getField:
  assumes "closedRegion b st" and "inRegion b st v"
  shows "inRegion b st (getField st v f)"
proof (cases v)
  case (Prim p)
  then show ?thesis by (simp add: getField_def inRegion_def)
next
  case (Ref a)
  with assms(2) have a: "b \<le> a \<and> a < length st" by (simp add: inRegion_def)
  with assms(1) have cl: "\<forall>(k, x)\<in>set (st ! a). inRegion b st x"
    unfolding closedRegion_iff by blast
  show ?thesis
  proof (cases "map_of (st ! a) f")
    case None
    with Ref a show ?thesis by (simp add: getField_def inRegion_def)
  next
    case (Some x)
    then have "(f, x) \<in> set (st ! a)" by (rule map_of_SomeD)
    with cl have "inRegion b st x" by blast
    with Ref a Some show ?thesis by (simp add: getField_def)
  qed
qed

lemma newObject_region:
  assumes "newObject st = (st', v)" and "b \<le> length st" and "closedRegion b st"
  shows "(\<exists>new. st' = st @ new) \<and> closedRegion b st' \<and> inRegion b st' v"
proof -
  from assms(1) have r: "st' = st @ [[]]" "v = Ref (length st)"
    by (auto simp: newObject_def)
  have "closedRegion b (st @ [[]])"
    using assms(3,2) by (rule closedRegion_append_cell) simp
  with r assms(2) show ?thesis by (simp add: inRegion_def)
qed

lemma cloneObject_region:
  assumes "cloneObject st v = Inr (st', v')"
  shows "(\<exists>new. st' = st @ new) \<and> closedRegion (length st) st' \<and> inRegion (length st) st' v'"
proof -
  from assms obtain t where "allocate st t = (st', v')"
    by (auto simp: cloneObject_def split: option.splits)
  moreover have "closedRegion (length st) st"
    by (simp add: closedRegion_def)
  ultimately show ?thesis
    using allocate_region [of st t st' v' "length st"] by simp
qed

lemma orNewObject_region:
  assumes "orNewObject st v = (st', v')" and "b \<le> length st" and "closedRegion b st"
    and "inRegion b st v"
  shows "(\<exists>new. st' = st @ new) \<and> closedRegion b st' \<and> inRegion b st' v'"
proof (cases "truthyVal v")
  case True
  with assms show ?thesis by (simp add: orNewObject_def)
next
  case False
  with assms(1) have "newObject st = (st', v')" by (simp add: orNewObject_def)
  then show ?thesis using assms(2,3) by (rule newObject_region)
qed

lemma resolveOptions_keepsBelow:
  assumes nc: "writesOwnObjects netCoreTaskHelper" and nd: "writesOwnObjects nodeTaskHelper"
    and "b \<le> length st" and cl: "closedRegion b st" and d: "inRegion b st d"
  shows "keepsBelow b st (snd (resolveOptions netCoreTaskHelper nodeTaskHelper taskPlatform st folder d field))"
proof -
  have args: "inRegion b st (getField st d f)" for f
    using cl d by (rule inRegion_getField)
  have "keepsBelow b st (snd (netCoreTaskHelper st folder (getField st d field)
                                 (getField st d ''netCore'')))"
    using nc assms(3) cl args unfolding writesOwnObjects_def by blast
  moreover have "keepsBelow b st (snd (nodeTaskHelper st folder (getField st d field)
                                 (getField st d ''node'')))"
    using nd assms(3) cl args unfolding writesOwnObjects_def by blast
  ultimately show ?thesis
    by (simp add: resolveOptions_def keepsBelow_refl)
qed

lemma resolveTaskInternal_keepsBelow:
  assumes nc: "writesOwnObjects netCoreTaskHelper" and nd: "writesOwnObjects nodeTaskHelper"
    and res: "resolveTaskInternal field netCoreTaskHelper nodeTaskHelper reader task taskPlatform st = (r, st')"
  shows "keepsBelow (length st) st st' \<and> (\<forall>t. r = Inr t \<longrightarrow> taskDefinition t = taskDefinition task)"
proof (cases "cloneObject st (taskDefinition task)")
  case (Inl e)
  with res show ?thesis
    by (auto simp: resolveTaskInternal_def keepsBelow_refl)
next
  case (Inr c)
  obtain st1 d where c: "c = (st1, d)" by force
  let ?b = "length st"
  from cloneObject_region [OF Inr [unfolded c]] obtain new1 where
    1: "st1 = st @ new1" "closedRegion ?b st1" "inRegion ?b st1 d"
    by blast
  have k1: "keepsBelow ?b st st1" using 1(1) by (simp add: keepsBelow_append)
  obtain st2 opts where o: "orNewObject st1 (getField st1 d field) = (st2, opts)"
    by force
  have g1: "inRegion ?b st1 (getField st1 d field)"
    using 1(2,3) by (rule inRegion_getField)
  have b1: "?b \<le> length st1" by (simp add: 1(1))
  have 2: "(\<exists>new. st2 = st1 @ new) \<and> closedRegion ?b st2 \<and> inRegion ?b st2 opts"
    using o b1 1(2) g1 by (rule orNewObject_region)
  then obtain new2 where st2: "st2 = st1 @ new2" by blast
  have d2: "inRegion ?b st2 d" using 1(3) st2 by (simp add: inRegion_append)
  have k2: "keepsBelow ?b st1 st2" unfolding st2 by (rule keepsBelow_append) (simp add: 1(1))
  define st3 where "st3 = setField st2 d field opts"
  have 3: "closedRegion ?b st3" "keepsBelow ?b st2 st3" "inRegion ?b st3 d" "?b \<le> length st3"
  proof -
    show "closedRegion ?b st3" using 2 by (simp add: st3_def closedRegion_setField)
    show "keepsBelow ?b st2 st3" using d2 by (simp add: st3_def keepsBelow_setField)
    show "inRegion ?b st3 d" using d2 by (rule inRegion_length [rotated]) (simp add: st3_def)
    show "?b \<le> length st3" using st2 1(1) by (simp add: st3_def)
  qed
  have k3: "keepsBelow ?b st st3"
    using k1 k2 3(2) keepsBelow_trans by blast
  show ?thesis
  proof (cases "taskScope task")
    case None
    with res Inr c o have "st' = st3" "\<forall>t. r \<noteq> Inr t"
      by (auto simp: resolveTaskInternal_def Let_def st3_def)
    with k3 show ?thesis by simp
  next
    case (Some folder)
    obtain r4 st4 where h: "resolveOptions netCoreTaskHelper nodeTaskHelper taskPlatform
                                    st3 folder d field = (r4, st4)"
      by force
    have k4: "keepsBelow ?b st3 st4"
      using resolveOptions_keepsBelow [OF nc nd 3(4,1,3), of taskPlatform folder field] h by simp
    have k5: "keepsBelow ?b st4 (setField st4 d field w)" for w
      using 3(3) by (rule keepsBelow_setField_any)
    have eq: "(r, st') =
        (case r4 of
           Inl e \<Rightarrow> (Inl e, st4)
         | Inr w \<Rightarrow> (Inr (task\<lparr>taskExecution :=
                        reader (setField st4 d field w) (getField (setField st4 d field w) d field)\<rparr>),
                     setField st4 d field w))"
      using res Inr c o Some h [unfolded st3_def]
      by (cases r4) (auto simp: resolveTaskInternal_def Let_def)
    show ?thesis
    proof (cases r4)
      case (Inl e)
      with eq have "st' = st4" "\<forall>t. r \<noteq> Inr t" by auto
      with k3 k4 show ?thesis using keepsBelow_trans by auto
    next
      case (Inr w)
      with eq have "st' = setField st4 d field w" "\<forall>t. r = Inr t \<longrightarrow> taskDefinition t = taskDefinition task"
        by auto
      with k3 k4 k5 [of w] show ?thesis using keepsBelow_trans by blast
    qed
  qed
qed

lemma writesOwnObjects_taggingHelper: "writesOwnObjects taggingHelper"
  by (simp add: writesOwnObjects_def taggingHelper_def keepsBelow_setField)

lemma platformField_example: "platformField buildStore (taskDefinition buildTask) = Some ''node''"
  by (simp add: platformField_def stringField_def getField_def buildStore_def buildTask_def)

lemma snapshot_example: "snapshot (length buildStore) buildStore (taskDefinition buildTask) =
   Some (TObject [(''type'', TLeaf (PString ''docker-build'')), (''platform'', TLeaf (PString ''node'')),
      (''dockerBuild'', TObject [(''context'', TLeaf (PString ''.''))])])"
  by (simp add: buildStore_def buildTask_def)

lemma cloneObject_example: "cloneObject buildStore (taskDefinition buildTask) =
      Inr (buildStore @ [[(''context'', Prim (PString ''.''))],
             [(''type'', Prim (PString ''docker-build'')), (''platform'', Prim (PString ''node'')),
              (''dockerBuild'', Ref 2)]], Ref 3)"
  by (simp add: cloneObject_def snapshot_example) (simp add: buildStore_def)

lemma resolveBuildTask_example:
  "resolveBuildTask platformField taggingHelper taggingHelper (buildCommandLineReader isSpace)
      buildTask buildStore =
     (Inr (buildTask\<lparr>taskExecution :=
             map (token isSpace) [''docker'', ''build'', ''--rm'', ''-t'', ''app:latest'', ''.'']\<rparr>),
      buildStore @
        [[(''context'', Prim (PString ''.'')), (''tag'', Prim (PString ''app:latest''))],
         [(''type'', Prim (PString ''docker-build'')), (''platform'', Prim (PString ''node'')),
          (''dockerBuild'', Ref 2)]])"
proof -
  define st1 where "st1 = buildStore @ [[(''context'', Prim (PString ''.''))],
             [(''type'', Prim (PString ''docker-build'')), (''platform'', Prim (PString ''node'')),
              (''dockerBuild'', Ref 2)]]"
  define st4 where "st4 = buildStore @
        [[(''context'', Prim (PString ''.'')), (''tag'', Prim (PString ''app:latest''))],
         [(''type'', Prim (PString ''docker-build'')), (''platform'', Prim (PString ''node'')),
          (''dockerBuild'', Ref 2)]]"
  have c: "cloneObject buildStore (taskDefinition buildTask) = Inr (st1, Ref 3)"
    by (simp add: cloneObject_example st1_def)
  have g1: "getField st1 (Ref 3) ''dockerBuild'' = Ref 2"
    by (simp add: getField_def st1_def buildStore_def)
  have o: "orNewObject st1 (Ref 2) = (st1, Ref 2)"
    by (simp add: orNewObject_def)
  have s3: "setField st1 (Ref 3) ''dockerBuild'' (Ref 2) = st1"
    by (simp add: setField_def st1_def buildStore_def)
  have h: "resolveOptions taggingHelper taggingHelper (Some ''node'') st1 ''/work'' (Ref 3)
      ''dockerBuild'' = (Inr (Ref 2), st4)"
    by (simp add: resolveOptions_def g1 taggingHelper_def)
      (simp add: setField_def st1_def st4_def buildStore_def)
  have g4: "getField st4 (Ref 3) ''dockerBuild'' = Ref 2"
    by (simp add: getField_def st4_def buildStore_def)
  have s5: "setField st4 (Ref 3) ''dockerBuild'' (Ref 2) = st4"
    by (simp add: setField_def st4_def buildStore_def)
  have opts: "readBuildOptions st4 (Ref 2) = emptyBuildOptions\<lparr>buildContext := Some ''.'',
      tag := Some ''app:latest''\<rparr>"
    by (simp add: readBuildOptions_def stringField_def boolField_def mapField_def getField_def
        st4_def buildStore_def emptyBuildOptions_def)
  have cl: "buildCommandLineReader isSpace st4 (Ref 2) =
      map (token isSpace) [''docker'', ''build'', ''--rm'', ''-t'', ''app:latest'', ''.'']"
    by (simp add: buildCommandLineReader_def opts resolveBuildCommandLine_def emptyBuildOptions_def
        create_def withFlagArg_def withNamedArg_def withKeyValueArgs_def withQuotedArg_def
        buildShellQuotedStrings_def truthy_def truthyBool_def)
  have scope: "taskScope buildTask = Some ''/work''"
    by (simp add: buildTask_def)
  have "resolveBuildTask platformField taggingHelper taggingHelper (buildCommandLineReader isSpace)
      buildTask buildStore =
     (Inr (buildTask\<lparr>taskExecution :=
             map (token isSpace) [''docker'', ''build'', ''--rm'', ''-t'', ''app:latest'', ''.'']\<rparr>),
      st4)"
    by (simp add: resolveBuildTask_def resolveBuildTaskInternal_def resolveTaskInternal_def
        Let_def platformField_example c g1 o s3 scope h g4 s5 cl)
  then show ?thesis
    by (simp only: st4_def)
qed

text \<open>
  C7. Task resolution does not write to the task definition of the caller. Whatever the
  call returns or throws, the store before the call is a prefix of the store after it:
  every object that existed, the definition and the objects below it, has the properties it
  had, and a returned task carries the definition it was given. The defaults and the
  resolved options are written to the clone. The platform helpers are taken to write only
  to the objects they reach from their arguments and to the objects they create.
\<close>

theorem resolveTask_keeps_definition:
  assumes "writesOwnObjects netCoreTaskHelper" and "writesOwnObjects nodeTaskHelper"
  shows "(resolveBuildTask getPlatform netCoreTaskHelper nodeTaskHelper reader task st = (r, st')
          \<or> resolveRunTask getPlatform netCoreTaskHelper nodeTaskHelper reader task st = (r, st')
          \<or> resolveBuildTaskInternal netCoreTaskHelper nodeTaskHelper reader task taskPlatform st = (r, st')
          \<or> resolveRunTaskInternal netCoreTaskHelper nodeTaskHelper reader task taskPlatform st = (r, st'))
         \<longrightarrow> take (length st) st' = st
             \<and> (\<forall>a<length st. st' ! a = st ! a)
             \<and> (\<forall>t. r = Inr t \<longrightarrow> taskDefinition t = taskDefinition task)"
proof
  assume "resolveBuildTask getPlatform netCoreTaskHelper nodeTaskHelper reader task st = (r, st')
          \<or> resolveRunTask getPlatform netCoreTaskHelper nodeTaskHelper reader task st = (r, st')
          \<or> resolveBuildTaskInternal netCoreTaskHelper nodeTaskHelper reader task taskPlatform st = (r, st')
          \<or> resolveRunTaskInternal netCoreTaskHelper nodeTaskHelper reader task taskPlatform st = (r, st')"
  then obtain field p where
    "resolveTaskInternal field netCoreTaskHelper nodeTaskHelper reader task p st = (r, st')"
    by (auto simp: resolveBuildTask_def resolveRunTask_def resolveBuildTaskInternal_def
        resolveRunTaskInternal_def Let_def)
  from resolveTaskInternal_keepsBelow [OF assms this]
  have kb: "keepsBelow (length st) st st'"
    and d: "\<forall>t. r = Inr t \<longrightarrow> taskDefinition t = taskDefinition task"
    by blast+
  from kb have k: "take (length st) st' = st"
    by (simp add: keepsBelow_def)
  have "\<forall>a<length st. st' ! a = st ! a"
  proof (intro allI impI)
    fix a assume "a < length st"
    then have "take (length st) st' ! a = st' ! a" by (rule nth_take)
    with k show "st' ! a = st ! a" by metis
  qed
  with k d show "take (length st) st' = st
             \<and> (\<forall>a<length st. st' ! a = st ! a)
             \<and> (\<forall>t. r = Inr t \<longrightarrow> taskDefinition t = taskDefinition task)"
    by blast
qed

theorem resolveTask_keeps_definition_witness:
  "take (length buildStore)
     (snd (resolveBuildTask platformField taggingHelper taggingHelper
             (buildCommandLineReader isSpace) buildTask buildStore)) = buildStore
   \<and> getField (snd (resolveBuildTask platformField taggingHelper taggingHelper
             (buildCommandLineReader isSpace) buildTask buildStore)) (Ref 1) ''tag'' = Prim PUndefined
   \<and> getField (snd (resolveBuildTask platformField taggingHelper taggingHelper
             (buildCommandLineReader isSpace) buildTask buildStore)) (Ref 2) ''tag'' =
       Prim (PString ''app:latest'')"
proof -
  let ?res = "resolveBuildTask platformField taggingHelper taggingHelper
             (buildCommandLineReader isSpace) buildTask buildStore"
  have "?res = (fst ?res, snd ?res)" by simp
  with resolveTask_keeps_definition [OF writesOwnObjects_taggingHelper writesOwnObjects_taggingHelper,
      of platformField "buildCommandLineReader isSpace" buildTask buildStore "fst ?res" "snd ?res"]
  have "take (length buildStore) (snd ?res) = buildStore" by blast
  moreover have "getField (snd ?res) (Ref 1) ''tag'' = Prim PUndefined"
    "getField (snd ?res) (Ref 2) ''tag'' = Prim (PString ''app:latest'')"
    unfolding resolveBuildTask_example by (simp_all add: getField_def buildStore_def)
  ultimately show ?thesis by blast
qed

end
